theory Spec2Isabelle
  imports Main "HOL-Library.Multiset"
begin

section \<open>Data model (src/shared/v2-types.ts)\<close>

text \<open>
  Channel identifiers travel through the message bus as plain strings: the
  TypeScript union \<^verbatim>\<open>ChannelId\<close> is erased at run time and the background script
  itself filters them with \<^verbatim>\<open>ALL_CHANNELS.includes\<close>, so they are strings here.
  Timestamps and tab ids are JavaScript numbers holding integers; \<^verbatim>\<open>Date.now()\<close> is a
  parameter \<open>now\<close> of every function that reads the clock. One handler invocation
  reads one clock value.
\<close>

type_synonym ChannelId = string

datatype PublishAction = draft | publish

datatype ChannelStage =
  init | openEntry | detectLogin | fillSourceUrl | fillTitle | fillContent
  | saveDraft | submitPublish | confirmSuccess | waitingUser | done_stage

datatype ChannelResultStatus = not_started | running | success | failed | waiting_user

record ArticlePayload =
  title :: string
  contentHtml :: string
  sourceUrl :: string
  author :: "string option"
  publishTime :: "string option"
  coverUrl :: "string option"

record PublishJob =
  jobId :: string
  createdAt :: int
  action :: PublishAction
  article :: ArticlePayload
  channels :: "ChannelId list option"
  sourceTabId :: "int option"
  stoppedAt :: "int option"

text \<open>
  \<^verbatim>\<open>status\<close> is declared mandatory, but the objects are plain JavaScript objects and
  \<^verbatim>\<open>handleV2ChannelUpdate\<close> can write one that has no \<^verbatim>\<open>status\<close> (see there), so the
  field is optional here like the others that may be missing at run time.
\<close>

record ChannelRuntimeState =
  channelId :: ChannelId
  status :: "ChannelResultStatus option"
  stage :: "ChannelStage option"
  userMessage :: "string option"
  userSuggestion :: "string option"
  devDetails :: "string option"
  updatedAt :: int
  tabId :: "int option"

text \<open>\<^verbatim>\<open>Partial<ChannelRuntimeState>\<close>: every field may be absent.\<close>

record StatePatch =
  p_channelId :: "ChannelId option"
  p_status :: "ChannelResultStatus option"
  p_stage :: "ChannelStage option"
  p_userMessage :: "string option"
  p_userSuggestion :: "string option"
  p_devDetails :: "string option"
  p_updatedAt :: "int option"
  p_tabId :: "int option"

text \<open>
  \<^verbatim>\<open>Record<ChannelId, ChannelRuntimeState>\<close> is a JavaScript object: keys are unique
  and keep their insertion order. It is an association list; \<open>obj_set\<close> is property
  assignment (overwrite in place, or append a new key) and \<open>map_of\<close> is property read.
\<close>

type_synonym StoredJobState = "(ChannelId \<times> ChannelRuntimeState) list"

fun obj_set :: "'k \<Rightarrow> 'v \<Rightarrow> ('k \<times> 'v) list \<Rightarrow> ('k \<times> 'v) list" where
  "obj_set k v [] = [(k, v)]"
| "obj_set k v (e # es) = (if fst e = k then (k, v) # es else e # obj_set k v es)"

text \<open>JavaScript truthiness of an optional number: present and not zero.\<close>

fun truthy :: "int option \<Rightarrow> bool" where
  "truthy None = False"
| "truthy (Some n) = (n \<noteq> 0)"

section \<open>Job data manager (src/shared/article-data-manager.ts)\<close>

text \<open>
  \<^verbatim>\<open>chrome.storage.local\<close> is one key-value object shared by job records and state
  records: an association list with unique keys, whose order is the order in which
  \<^verbatim>\<open>get(null)\<close> enumerates the entries (no result below depends on a particular order).
  Its calls are taken to succeed; the \<^verbatim>\<open>catch\<close> branches for a failing storage backend
  are not part of the model. Job keys hold job records and state keys hold state maps;
  a read that finds a value of the other kind is treated as a miss.
\<close>

datatype stored = JobV PublishJob | StateV StoredJobState

type_synonym storage = "(string \<times> stored) list"

definition JOB_KEY_PREFIX :: string where
  "JOB_KEY_PREFIX = ''bawei_v2_job_''"

definition STATE_KEY_PREFIX :: string where
  "STATE_KEY_PREFIX = ''bawei_v2_state_''"

definition EXPIRY_TIME :: int where
  "EXPIRY_TIME = 24 * 60 * 60 * 1000"

definition MAX_STORED_JOBS :: nat where
  "MAX_STORED_JOBS = 20"

definition jobKey :: "string \<Rightarrow> string" where
  "jobKey jid = JOB_KEY_PREFIX @ jid"

definition stateKey :: "string \<Rightarrow> string" where
  "stateKey jid = STATE_KEY_PREFIX @ jid"

definition startsWith :: "string \<Rightarrow> string \<Rightarrow> bool" where
  "startsWith s p = (take (length p) s = p)"

text \<open>\<^verbatim>\<open>chrome.storage.local.remove(keys)\<close>.\<close>

definition storage_remove :: "string list \<Rightarrow> storage \<Rightarrow> storage" where
  "storage_remove ks st = filter (\<lambda>e. fst e \<notin> set ks) st"

text \<open>
  \<^verbatim>\<open>typeof job?.createdAt === 'number' ? job.createdAt : 0\<close>; the same value is what
  \<^verbatim>\<open>job.createdAt || 0\<close> yields in \<^verbatim>\<open>limitStoredJobs\<close>.
\<close>

fun createdAt_of :: "stored \<Rightarrow> int" where
  "createdAt_of (JobV j) = createdAt j"
| "createdAt_of (StateV s) = 0"

definition getJobData :: "storage \<Rightarrow> string \<Rightarrow> PublishJob option" where
  "getJobData st jid =
     (case map_of st (jobKey jid) of Some (JobV j) \<Rightarrow> Some j | _ \<Rightarrow> None)"

definition storeJobState :: "string \<Rightarrow> StoredJobState \<Rightarrow> storage \<Rightarrow> storage" where
  "storeJobState jid state st = obj_set (stateKey jid) (StateV state) st"

definition getJobState :: "storage \<Rightarrow> string \<Rightarrow> StoredJobState option" where
  "getJobState st jid =
     (case map_of st (stateKey jid) of Some (StateV s) \<Rightarrow> Some s | _ \<Rightarrow> None)"

definition deleteJob :: "string \<Rightarrow> storage \<Rightarrow> storage" where
  "deleteJob jid st = storage_remove [jobKey jid, stateKey jid] st"

text \<open>The test of the loop body of \<^verbatim>\<open>cleanExpiredData\<close> on one entry.\<close>

definition isExpired :: "int \<Rightarrow> string \<times> stored \<Rightarrow> bool" where
  "isExpired now e =
     (startsWith (fst e) JOB_KEY_PREFIX \<and>
      createdAt_of (snd e) \<noteq> 0 \<and> now - createdAt_of (snd e) > EXPIRY_TIME)"

fun expiredKeys :: "int \<Rightarrow> storage \<Rightarrow> string list" where
  "expiredKeys now [] = []"
| "expiredKeys now (e # es) =
     (if isExpired now e
      then fst e # stateKey (drop (length JOB_KEY_PREFIX) (fst e)) # expiredKeys now es
      else expiredKeys now es)"

text \<open>Returns the number of removed keys and the storage after the sweep.\<close>

definition cleanExpiredData :: "int \<Rightarrow> storage \<Rightarrow> nat \<times> storage" where
  "cleanExpiredData now st =
     (let ks = expiredKeys now st in
      (length ks, if length ks > 0 then storage_remove ks st else st))"

text \<open>
  \<^verbatim>\<open>Array.prototype.sort\<close> is stable, and the comparator
  \<^verbatim>\<open>(b.job.createdAt || 0) - (a.job.createdAt || 0)\<close> orders by descending creation time:
  a stable sort on the negated key.
\<close>

definition storedJobs :: "storage \<Rightarrow> storage" where
  "storedJobs st = filter (\<lambda>e. startsWith (fst e) JOB_KEY_PREFIX) st"

definition sortedJobs :: "storage \<Rightarrow> storage" where
  "sortedJobs st = sort_key (\<lambda>e. - createdAt_of (snd e)) (storedJobs st)"

fun keysToRemove :: "storage \<Rightarrow> string list" where
  "keysToRemove [] = []"
| "keysToRemove (e # es) =
     fst e # stateKey (drop (length JOB_KEY_PREFIX) (fst e)) # keysToRemove es"

definition limitStoredJobs :: "storage \<Rightarrow> storage" where
  "limitStoredJobs st =
     (let jobs = sortedJobs st in
      if length jobs \<le> MAX_STORED_JOBS then st
      else storage_remove (keysToRemove (drop MAX_STORED_JOBS jobs)) st)"

definition storeJobData :: "int \<Rightarrow> PublishJob \<Rightarrow> storage \<Rightarrow> storage" where
  "storeJobData now job st =
     limitStoredJobs (snd (cleanExpiredData now (obj_set (jobKey (jobId job)) (JobV job) st)))"

text \<open>\<^verbatim>\<open>markJobStopped\<close> throws \<^verbatim>\<open>Job not found\<close> when the record is missing.\<close>

definition markJobStopped :: "int \<Rightarrow> string \<Rightarrow> int \<Rightarrow> storage \<Rightarrow> string + storage" where
  "markJobStopped now jid stoppedAtV st =
     (case getJobData st jid of
        None \<Rightarrow> Inl ''Job not found''
      | Some job \<Rightarrow> Inr (storeJobData now (job\<lparr>stoppedAt := Some stoppedAtV\<rparr>) st))"

section \<open>Background orchestrator (the background script)\<close>

definition ALL_CHANNELS :: "ChannelId list" where
  "ALL_CHANNELS =
     [''csdn'', ''tencent-cloud-dev'', ''cnblogs'', ''oschina'', ''woshipm'',
      ''mowen'', ''sspai'', ''baijiahao'', ''toutiao'', ''feishu-docs'']"

text \<open>Object spread \<^verbatim>\<open>{...base, ...patch}\<close>: a field present in the patch wins.\<close>

definition spreadPatch :: "ChannelRuntimeState \<Rightarrow> StatePatch \<Rightarrow> ChannelRuntimeState" where
  "spreadPatch base p =
     \<lparr> channelId = (case p_channelId p of Some v \<Rightarrow> v | None \<Rightarrow> channelId base),
       status = (case p_status p of Some v \<Rightarrow> Some v | None \<Rightarrow> status base),
       stage = (case p_stage p of Some v \<Rightarrow> Some v | None \<Rightarrow> stage base),
       userMessage = (case p_userMessage p of Some v \<Rightarrow> Some v | None \<Rightarrow> userMessage base),
       userSuggestion =
         (case p_userSuggestion p of Some v \<Rightarrow> Some v | None \<Rightarrow> userSuggestion base),
       devDetails = (case p_devDetails p of Some v \<Rightarrow> Some v | None \<Rightarrow> devDetails base),
       updatedAt = (case p_updatedAt p of Some v \<Rightarrow> v | None \<Rightarrow> updatedAt base),
       tabId = (case p_tabId p of Some v \<Rightarrow> Some v | None \<Rightarrow> tabId base) \<rparr>"

definition emptyPatch :: StatePatch where
  "emptyPatch =
     \<lparr> p_channelId = None, p_status = None, p_stage = None, p_userMessage = None,
       p_userSuggestion = None, p_devDetails = None, p_updatedAt = None, p_tabId = None \<rparr>"

definition nowState :: "int \<Rightarrow> ChannelId \<Rightarrow> StatePatch option \<Rightarrow> ChannelRuntimeState" where
  "nowState now c patch =
     spreadPatch
       \<lparr> channelId = c, status = Some not_started, stage = None, userMessage = None,
         userSuggestion = None, devDetails = None, updatedAt = now, tabId = None \<rparr>
       (case patch of None \<Rightarrow> emptyPatch | Some p \<Rightarrow> p)"

definition buildInitialState :: "int \<Rightarrow> StoredJobState" where
  "buildInitialState now =
     [(''csdn'', nowState now ''csdn'' None),
      (''tencent-cloud-dev'', nowState now ''tencent-cloud-dev'' None),
      (''cnblogs'', nowState now ''cnblogs'' None),
      (''oschina'', nowState now ''oschina'' None),
      (''woshipm'', nowState now ''woshipm'' None),
      (''mowen'', nowState now ''mowen'' None),
      (''sspai'', nowState now ''sspai'' None),
      (''baijiahao'', nowState now ''baijiahao'' None),
      (''toutiao'', nowState now ''toutiao'' None),
      (''feishu-docs'', nowState now ''feishu-docs'' None)]"

text \<open>
  What the script sends out: tabs it asks the browser to open and messages it posts to
  tabs. A \<^verbatim>\<open>chrome.tabs.sendMessage\<close> that fails is caught and logged on every path
  modelled here, so the log records the attempt.
\<close>

datatype effect =
  TabCreate string bool
  | JobBroadcast int string "ChannelId list option" StoredJobState
  | StopSignal int string

text \<open>The in-memory maps of the script, the storage and the effect log.\<close>

record world =
  store :: storage
  tabIdToContext :: "int \<rightharpoonup> string \<times> ChannelId"
  jobIdToSourceTabId :: "string \<rightharpoonup> int"
  jobStateCache :: "string \<rightharpoonup> StoredJobState"
  sent :: "effect list"

datatype response = Success | SuccessJob string | Failure string

definition broadcastJobState :: "string \<Rightarrow> world \<Rightarrow> world" where
  "broadcastJobState jid w =
     (case jobIdToSourceTabId w jid of
        None \<Rightarrow> w
      | Some src \<Rightarrow>
          (case jobStateCache w jid of
             None \<Rightarrow> w
           | Some state \<Rightarrow>
               if src = 0 then w
               else w\<lparr>sent := sent w @
                      [JobBroadcast src jid
                         (case getJobData (store w) jid of None \<Rightarrow> None | Some job \<Rightarrow> channels job)
                         state]\<rparr>))"

subsection \<open>StartJob\<close>

record StartJobRequest =
  req_action :: PublishAction
  req_focusChannel :: ChannelId
  req_channels :: "ChannelId list option"
  req_article :: "ArticlePayload option"

definition entryUrls :: "ChannelId \<Rightarrow> string" where
  "entryUrls c =
     (if c = ''csdn'' then ''https://mp.csdn.net/mp_blog/creation/editor''
      else if c = ''tencent-cloud-dev'' then ''https://cloud.tencent.com/developer/article/write''
      else if c = ''cnblogs'' then ''https://i.cnblogs.com/posts/edit''
      else if c = ''oschina'' then ''https://www.oschina.net/blog/write''
      else if c = ''woshipm'' then ''https://www.woshipm.com/writing''
      else if c = ''mowen'' then ''https://note.mowen.cn/editor''
      else if c = ''sspai'' then ''https://sspai.com/write''
      else if c = ''baijiahao''
        then ''https://baijiahao.baidu.com/builder/rc/edit?type=news&is_from_cms=1''
      else if c = ''toutiao'' then ''https://mp.toutiao.com/profile_v4/graphic/publish''
      else ''https://wuxinxuexi.feishu.cn/drive/folder/PyWAfSFwrlMgiydvlHectMn2nSd'')"

text \<open>
  The outcome of one \<^verbatim>\<open>chrome.tabs.create\<close>: a tab whose id may be missing, or a
  rejected promise with its message.
\<close>

datatype spawn_result = Created "int option" | CreateFailed string

definition channelsToRun :: "StartJobRequest \<Rightarrow> ChannelId list" where
  "channelsToRun message =
     filter (\<lambda>c. c \<in> set ALL_CHANNELS)
       (case req_channels message of
          None \<Rightarrow> ALL_CHANNELS
        | Some cs \<Rightarrow> if length cs > 0 then cs else ALL_CHANNELS)"

text \<open>
  The callbacks of \<^verbatim>\<open>channelsToRun.map(async ...)\<close>: \<open>openTab\<close> is one of them, with
  the early return \<^verbatim>\<open>if (!tab.id) return\<close>. Every callback calls
  \<^verbatim>\<open>chrome.tabs.create\<close> before the first one resumes, so all tabs are requested
  whatever happens later. The continuations then run in the order in which the
  \<^verbatim>\<open>create\<close> promises settle (see \<open>spawnOutcome\<close>). Each one writes the tab registry
  and the shared \<^verbatim>\<open>initialState\<close> object; a rejected \<^verbatim>\<open>create\<close> writes nothing and
  is remembered: the first rejection in time is what \<^verbatim>\<open>Promise.all\<close> rejects with. The
  channel is a key of \<^verbatim>\<open>initialState\<close> because \<open>channelsToRun\<close> filtered it (so the
  assignment \<^verbatim>\<open>initialState[channelId] = next\<close> overwrites an own property); the \<open>None\<close>
  branch is there for totality.
\<close>

record spawnAcc =
  acc_ctx :: "int \<rightharpoonup> string \<times> ChannelId"
  acc_state :: StoredJobState
  acc_error :: "string option"

fun openTab :: "int \<Rightarrow> string \<Rightarrow> ChannelId \<times> spawn_result \<Rightarrow> spawnAcc \<Rightarrow> spawnAcc" where
  "openTab now jid (c, CreateFailed msg) acc =
     acc\<lparr>acc_error := (case acc_error acc of None \<Rightarrow> Some msg | Some m \<Rightarrow> Some m)\<rparr>"
| "openTab now jid (c, Created None) acc = acc"
| "openTab now jid (c, Created (Some t)) acc =
     (if t = 0 then acc
      else
        (case map_of (acc_state acc) c of
           None \<Rightarrow> acc
         | Some prev \<Rightarrow>
             acc\<lparr>acc_ctx := (acc_ctx acc)(t \<mapsto> (jid, c)),
                 acc_state := obj_set c
                   (prev\<lparr>status := Some running, stage := Some openEntry,
                          updatedAt := now, tabId := Some t\<rparr>)
                   (acc_state acc)\<rparr>))"

fun openTabs :: "int \<Rightarrow> string \<Rightarrow> (ChannelId \<times> spawn_result) list \<Rightarrow> spawnAcc \<Rightarrow> spawnAcc" where
  "openTabs now jid [] acc = acc"
| "openTabs now jid (r # rest) acc = openTabs now jid rest (openTab now jid r acc)"

text \<open>
  The whole \<^verbatim>\<open>Promise.all(channelsToRun.map(...))\<close>. The browser decides what each
  \<^verbatim>\<open>chrome.tabs.create\<close> yields and when: \<open>spawn i\<close> is the outcome of the \<open>i\<close>-th call and
  \<open>settle i\<close> the time at which its promise settles. The continuations run in the order
  of these times (\<open>settleOrder\<close>; calls that settle at the same time run in call order).
\<close>

definition settleOrder :: "(nat \<Rightarrow> nat) \<Rightarrow> nat \<Rightarrow> nat list" where
  "settleOrder settle n = sort_key settle [0..<n]"

definition spawnOutcome ::
  "int \<Rightarrow> string \<Rightarrow> (nat \<Rightarrow> spawn_result) \<Rightarrow> (nat \<Rightarrow> nat) \<Rightarrow> ChannelId list
     \<Rightarrow> (int \<rightharpoonup> string \<times> ChannelId) \<Rightarrow> StoredJobState \<Rightarrow> spawnAcc" where
  "spawnOutcome now jid spawn settle cs ctx initialState =
     openTabs now jid (map (\<lambda>i. (cs ! i, spawn i)) (settleOrder settle (length cs)))
       \<lparr> acc_ctx = ctx, acc_state = initialState, acc_error = None \<rparr>"

text \<open>
  \<open>newId\<close> is the value of \<^verbatim>\<open>newJobId()\<close> and \<open>senderTab\<close> is \<^verbatim>\<open>sender.tab?.id\<close>.

  When a \<^verbatim>\<open>create\<close> is rejected the handler answers with the failure and skips the
  final persist and broadcast. The cache entry set before the spawn holds the very
  object the callbacks write to, so it shows their writes; the stored copy does not.
  The world returned is the one reached when every \<^verbatim>\<open>create\<close> has settled.
\<close>

definition handleV2StartJob ::
  "int \<Rightarrow> string \<Rightarrow> (nat \<Rightarrow> spawn_result) \<Rightarrow> (nat \<Rightarrow> nat) \<Rightarrow> StartJobRequest \<Rightarrow> int option
     \<Rightarrow> world \<Rightarrow> response \<times> world" where
  "handleV2StartJob now newId spawn settle message senderTab w =
     (case req_article message of
        None \<Rightarrow> (Failure ''Missing required fields: title/contentHtml/sourceUrl'', w)
      | Some art \<Rightarrow>
          if title art = [] \<or> contentHtml art = [] \<or> sourceUrl art = []
          then (Failure ''Missing required fields: title/contentHtml/sourceUrl'', w)
          else
            (let cs = channelsToRun message;
                 job = \<lparr> jobId = newId, createdAt = now, action = req_action message,
                         article = art, channels = Some cs, sourceTabId = senderTab,
                         stoppedAt = None \<rparr>;
                 initialState = buildInitialState now;
                 w1 = w\<lparr>store := storeJobData now job (store w)\<rparr>;
                 w2 = w1\<lparr>jobStateCache := (jobStateCache w1)(newId \<mapsto> initialState),
                         store := storeJobState newId initialState (store w1)\<rparr>;
                 w3 = (case senderTab of
                         Some src \<Rightarrow>
                           if src \<noteq> 0
                           then w2\<lparr>jobIdToSourceTabId := (jobIdToSourceTabId w2)(newId \<mapsto> src)\<rparr>
                           else w2
                       | None \<Rightarrow> w2);
                 w4 = w3\<lparr>sent := sent w3 @
                          map (\<lambda>c. TabCreate (entryUrls c) (c = req_focusChannel message)) cs\<rparr>;
                 acc = spawnOutcome now newId spawn settle cs (tabIdToContext w4) initialState;
                 w5 = w4\<lparr>tabIdToContext := acc_ctx acc,
                         jobStateCache := (jobStateCache w4)(newId \<mapsto> acc_state acc)\<rparr>
             in case acc_error acc of
                  Some msg \<Rightarrow> (Failure msg, w5)
                | None \<Rightarrow>
                    (SuccessJob newId,
                     broadcastJobState newId
                       (w5\<lparr>store := storeJobState newId (acc_state acc) (store w5)\<rparr>))))"

subsection \<open>ChannelUpdate\<close>

record ChannelUpdate =
  cu_jobId :: string
  cu_channelId :: ChannelId
  cu_patch :: "StatePatch option"

text \<open>
  \<open>jobStopped\<close> is the test \<^verbatim>\<open>job?.stoppedAt\<close> on the stored job; \<open>currentState\<close> is
  \<^verbatim>\<open>jobStateCache.get(jobId) || (await getJobState(jobId)) || buildInitialState()\<close>.
\<close>

definition jobStopped :: "storage \<Rightarrow> string \<Rightarrow> bool" where
  "jobStopped st jid =
     (case getJobData st jid of None \<Rightarrow> False | Some job \<Rightarrow> truthy (stoppedAt job))"

definition currentState :: "int \<Rightarrow> string \<Rightarrow> world \<Rightarrow> StoredJobState" where
  "currentState now jid w =
     (case jobStateCache w jid of
        Some s \<Rightarrow> s
      | None \<Rightarrow>
          (case getJobState (store w) jid of
             Some s \<Rightarrow> s
           | None \<Rightarrow> buildInitialState now))"

text \<open>
  Reading and assigning a property of a state map by a key that comes from a message.
  The maps are plain objects, so \<^verbatim>\<open>current[channelId]\<close> finds an own property, or else
  a member inherited from \<^verbatim>\<open>Object.prototype\<close> (a function, or the prototype itself for
  \<^verbatim>\<open>__proto__\<close>: truthy in both cases), or else nothing; and
  \<^verbatim>\<open>current[channelId] = next\<close> creates or overwrites an own property, except for the key
  \<^verbatim>\<open>__proto__\<close>, where it replaces the prototype of the object and leaves its own
  properties as they are. The replaced prototype itself is not part of the model: what is
  stored and broadcast are the own properties.
\<close>

definition OBJECT_PROTOTYPE_KEYS :: "string list" where
  "OBJECT_PROTOTYPE_KEYS =
     [''constructor'', ''__defineGetter__'', ''__defineSetter__'', ''hasOwnProperty'',
      ''__lookupGetter__'', ''__lookupSetter__'', ''isPrototypeOf'', ''propertyIsEnumerable'',
      ''toString'', ''valueOf'', ''__proto__'', ''toLocaleString'']"

datatype 'v property = Own 'v | Inherited | Absent

definition propertyRead :: "(string \<times> 'v) list \<Rightarrow> string \<Rightarrow> 'v property" where
  "propertyRead obj k =
     (case map_of obj k of
        Some v \<Rightarrow> Own v
      | None \<Rightarrow> if k \<in> set OBJECT_PROTOTYPE_KEYS then Inherited else Absent)"

definition propertyAssign :: "string \<Rightarrow> 'v \<Rightarrow> (string \<times> 'v) list \<Rightarrow> (string \<times> 'v) list" where
  "propertyAssign k v obj = (if k = ''__proto__'' then obj else obj_set k v obj)"

text \<open>
  \<^verbatim>\<open>const prev = current[channelId] || nowState(channelId)\<close>. An inherited member has no
  own enumerable property, so spreading it contributes nothing and its \<^verbatim>\<open>tabId\<close> is
  undefined: \<open>inheritedPrev\<close> is the state with every optional field missing (its
  \<open>channelId\<close> and \<open>updatedAt\<close> are the ones the merge writes in any case).
\<close>

definition inheritedPrev :: "int \<Rightarrow> ChannelId \<Rightarrow> ChannelRuntimeState" where
  "inheritedPrev now c =
     \<lparr> channelId = c, status = None, stage = None, userMessage = None,
       userSuggestion = None, devDetails = None, updatedAt = now, tabId = None \<rparr>"

definition prevState :: "int \<Rightarrow> ChannelId \<Rightarrow> StoredJobState \<Rightarrow> ChannelRuntimeState" where
  "prevState now c current =
     (case propertyRead current c of
        Own s \<Rightarrow> s
      | Inherited \<Rightarrow> inheritedPrev now c
      | Absent \<Rightarrow> nowState now c None)"

text \<open>
  \<^verbatim>\<open>{...prev, ...patch, channelId, updatedAt: Date.now(), tabId: sender.tab?.id || prev.tabId}\<close>
\<close>

definition mergeUpdate ::
  "int \<Rightarrow> ChannelId \<Rightarrow> StatePatch \<Rightarrow> int option \<Rightarrow> ChannelRuntimeState \<Rightarrow> ChannelRuntimeState" where
  "mergeUpdate now c patch senderTab prev =
     (spreadPatch prev patch)
       \<lparr> channelId := c, updatedAt := now,
         tabId := (if truthy senderTab then senderTab else tabId prev) \<rparr>"

text \<open>
  \<^verbatim>\<open>message.patch || {}\<close>, and the value of \<^verbatim>\<open>current\<close> after the assignment
  \<^verbatim>\<open>current[channelId] = next\<close>.
\<close>

definition messagePatch :: "ChannelUpdate \<Rightarrow> StatePatch" where
  "messagePatch message = (case cu_patch message of None \<Rightarrow> emptyPatch | Some p \<Rightarrow> p)"

definition updatedState :: "int \<Rightarrow> ChannelUpdate \<Rightarrow> int option \<Rightarrow> world \<Rightarrow> StoredJobState" where
  "updatedState now message senderTab w =
     (let current = currentState now (cu_jobId message) w;
          c = cu_channelId message;
          patch = messagePatch message;
          prev = prevState now c current;
          next = mergeUpdate now c patch senderTab prev
      in propertyAssign c next current)"

definition handleV2ChannelUpdate ::
  "int \<Rightarrow> ChannelUpdate \<Rightarrow> int option \<Rightarrow> world \<Rightarrow> response \<times> world" where
  "handleV2ChannelUpdate now message senderTab w =
     (let jid = cu_jobId message;
          c = cu_channelId message
      in if jid = [] \<or> c = [] then (Failure ''Missing jobId/channelId'', w)
         else if jobStopped (store w) jid then (Success, w)
         else
           (let current' = updatedState now message senderTab w;
                w1 = w\<lparr>jobStateCache := (jobStateCache w)(jid \<mapsto> current'),
                        store := storeJobState jid current' (store w)\<rparr>
            in (Success, broadcastJobState jid w1)))"

subsection \<open>RequestStop\<close>

text \<open>
  The stop signals go to the tab ids found in the cached (else stored) state, one
  \<^verbatim>\<open>sendMessage\<close> per channel of \<^verbatim>\<open>ALL_CHANNELS\<close> with a truthy \<^verbatim>\<open>tabId\<close>.
\<close>

fun stopSignals :: "string \<Rightarrow> StoredJobState option \<Rightarrow> ChannelId list \<Rightarrow> effect list" where
  "stopSignals jid state [] = []"
| "stopSignals jid state (c # cs) =
     (case state of
        None \<Rightarrow> stopSignals jid state cs
      | Some s \<Rightarrow>
          (case map_of s c of
             None \<Rightarrow> stopSignals jid state cs
           | Some cst \<Rightarrow>
               (case tabId cst of
                  None \<Rightarrow> stopSignals jid state cs
                | Some t \<Rightarrow>
                    if t = 0 then stopSignals jid state cs
                    else StopSignal t jid # stopSignals jid state cs)))"

definition handleV2StopJob :: "int \<Rightarrow> string \<Rightarrow> world \<Rightarrow> response \<times> world" where
  "handleV2StopJob now jid w =
     (if jid = [] then (Failure ''Missing jobId'', w)
      else
        (case getJobData (store w) jid of
           None \<Rightarrow> (Failure ''Job not found'', w)
         | Some job \<Rightarrow>
             if truthy (stoppedAt job) then (Success, w)
             else
               (case markJobStopped now jid now (store w) of
                  Inl msg \<Rightarrow> (Failure msg, w)
                | Inr st' \<Rightarrow>
                    (let w1 = w\<lparr>store := st'\<rparr>;
                         state = (case jobStateCache w1 jid of
                                    Some s \<Rightarrow> Some s
                                  | None \<Rightarrow> getJobState (store w1) jid)
                     in (Success, w1\<lparr>sent := sent w1 @ stopSignals jid state ALL_CHANNELS\<rparr>)))))"

section \<open>Notions used in the statements\<close>

text \<open>The expiry test of \<^verbatim>\<open>cleanExpiredData\<close> read on a job record.\<close>

definition jobExpired :: "int \<Rightarrow> PublishJob \<Rightarrow> bool" where
  "jobExpired now job = (createdAt job \<noteq> 0 \<and> now - createdAt job > EXPIRY_TIME)"

definition fresh_or_running :: "StoredJobState \<Rightarrow> bool" where
  "fresh_or_running s =
     list_all (\<lambda>e. status (snd e) = Some not_started \<or> status (snd e) = Some running) s"

definition channelStatus :: "StoredJobState option \<Rightarrow> ChannelId \<Rightarrow> ChannelResultStatus option" where
  "channelStatus state c =
     (case state of
        None \<Rightarrow> None
      | Some s \<Rightarrow> (case map_of s c of None \<Rightarrow> None | Some cst \<Rightarrow> status cst))"

text \<open>The validation at the head of \<^verbatim>\<open>handleV2StartJob\<close> passes.\<close>

definition validArticle :: "StartJobRequest \<Rightarrow> bool" where
  "validArticle m =
     (case req_article m of
        None \<Rightarrow> False
      | Some art \<Rightarrow> title art \<noteq> [] \<and> contentHtml art \<noteq> [] \<and> sourceUrl art \<noteq> [])"

text \<open>A spawn that yields a tab with an id, and a spawn whose promise is rejected.\<close>

fun spawned :: "spawn_result \<Rightarrow> bool" where
  "spawned (Created tid) = truthy tid"
| "spawned (CreateFailed msg) = False"

fun rejected :: "spawn_result \<Rightarrow> bool" where
  "rejected (Created tid) = False"
| "rejected (CreateFailed msg) = True"

fun isBroadcast :: "effect \<Rightarrow> bool" where
  "isBroadcast (JobBroadcast src jid cs state) = True"
| "isBroadcast (TabCreate url active) = False"
| "isBroadcast (StopSignal t jid) = False"

section \<open>Sample data\<close>

definition exArticle :: ArticlePayload where
  "exArticle = \<lparr> title = ''T'', contentHtml = ''<p>x</p>'', sourceUrl = ''https://x'',
                  author = None, publishTime = None, coverUrl = None \<rparr>"

definition exJob :: "string \<Rightarrow> int \<Rightarrow> PublishJob" where
  "exJob jid t = \<lparr> jobId = jid, createdAt = t, action = publish, article = exArticle,
                   channels = Some [''csdn'', ''cnblogs''], sourceTabId = Some 5,
                   stoppedAt = None \<rparr>"

definition emptyWorld :: world where
  "emptyWorld = \<lparr> store = [], tabIdToContext = Map.empty, jobIdToSourceTabId = Map.empty,
                   jobStateCache = Map.empty, sent = [] \<rparr>"

text \<open>A world holding one job, its state record and cache entry, started from tab 5.\<close>

definition exWorld :: "PublishJob \<Rightarrow> world" where
  "exWorld job =
     \<lparr> store = [(jobKey (jobId job), JobV job),
                (stateKey (jobId job), StateV (buildInitialState (createdAt job)))],
       tabIdToContext = Map.empty,
       jobIdToSourceTabId = [jobId job \<mapsto> 5],
       jobStateCache = [jobId job \<mapsto> buildInitialState (createdAt job)],
       sent = [] \<rparr>"

definition exUpdate :: ChannelUpdate where
  "exUpdate = \<lparr> cu_jobId = ''J'', cu_channelId = ''csdn'',
                 cu_patch = Some (emptyPatch\<lparr>p_status := Some failed\<rparr>) \<rparr>"

definition exStart :: "ChannelId list option \<Rightarrow> StartJobRequest" where
  "exStart cs = \<lparr> req_action = publish, req_focusChannel = ''csdn'', req_channels = cs,
                  req_article = Some exArticle \<rparr>"

text \<open>Tab creations that settle in call order.\<close>

definition exSettle :: "nat \<Rightarrow> nat" where
  "exSettle i = i"

definition exSpawn :: "nat \<Rightarrow> spawn_result" where
  "exSpawn i = Created (Some (int i + 7))"

definition exSpawnFail :: "nat \<Rightarrow> spawn_result" where
  "exSpawnFail i = (if i = 0 then CreateFailed ''boom'' else Created (Some (int i + 7)))"

text \<open>Two rejected creations, the second of which settles first.\<close>

definition exSpawnTwoFail :: "nat \<Rightarrow> spawn_result" where
  "exSpawnTwoFail i = (if i = 0 then CreateFailed ''late'' else CreateFailed ''early'')"

definition exSettleRev :: "nat \<Rightarrow> nat" where
  "exSettleRev i = 10 - i"


text \<open>Stores of 20 jobs \<open>a\<close> to \<open>t\<close> with given creation times.\<close>

definition exStoreOf :: "int list \<Rightarrow> storage" where
  "exStoreOf ts =
     map (\<lambda>(c, t). (jobKey [c], JobV (exJob [c] t))) (zip ''abcdefghijklmnopqrst'' ts)"

definition exStoreFresh :: storage where
  "exStoreFresh = exStoreOf (map (\<lambda>i. 90000000 + int i) [0..<20])"

definition exStoreStale :: storage where
  "exStoreStale = exStoreOf ([1, 2] @ map (\<lambda>i. 90000000 + int i) [0..<18])"

section \<open>Objects and storage keys\<close>

lemma obj_set_keys: "map_of s k = Some old \<Longrightarrow> map fst (obj_set k v s) = map fst s"
  by (induction s) (auto split: if_splits)

lemma map_of_obj_set: "map_of (obj_set k v s) k' = (if k' = k then Some v else map_of s k')"
  by (induction s) auto

lemma set_obj_set: "set (obj_set k v s) \<subseteq> insert (k, v) (set s)"
  by (induction s) auto

lemma distinct_obj_set: "distinct (map fst s) \<Longrightarrow> distinct (map fst (obj_set k v s))"
proof (induction s)
  case Nil
  then show ?case by simp
next
  case (Cons e es)
  have "fst ` set (obj_set k v es) \<subseteq> insert k (fst ` set es)"
    by (induction es) auto
  with Cons show ?case by auto
qed

lemma obj_set_others:
  "filter (\<lambda>e. fst e \<noteq> k) (obj_set k v s) = filter (\<lambda>e. fst e \<noteq> k) s"
  by (induction s) auto

lemma startsWith_jobKey [simp]: "startsWith (jobKey jid) JOB_KEY_PREFIX"
  by (simp add: startsWith_def jobKey_def)

lemma stateKey_not_job [simp]: "\<not> startsWith (stateKey jid) JOB_KEY_PREFIX"
  by (simp add: startsWith_def stateKey_def JOB_KEY_PREFIX_def STATE_KEY_PREFIX_def)

lemma startsWith_slice:
  "startsWith k JOB_KEY_PREFIX \<Longrightarrow> jobKey (drop (length JOB_KEY_PREFIX) k) = k"
  unfolding startsWith_def jobKey_def by (metis append_take_drop_id)

lemma slice_jobKey [simp]: "drop (length JOB_KEY_PREFIX) (jobKey jid) = jid"
  by (simp add: jobKey_def)

lemma jobKey_inj [simp]: "jobKey a = jobKey b \<longleftrightarrow> a = b"
  by (simp add: jobKey_def)

lemma stateKey_inj [simp]: "stateKey a = stateKey b \<longleftrightarrow> a = b"
  by (simp add: stateKey_def)

lemma stateKey_neq_jobKey [simp]: "stateKey a \<noteq> jobKey b" "jobKey b \<noteq> stateKey a"
  using stateKey_not_job[of a] startsWith_jobKey[of b] by metis+

lemma map_of_storage_remove:
  "map_of (storage_remove ks st) k = (if k \<in> set ks then None else map_of st k)"
  unfolding storage_remove_def by (induction st) auto

lemma distinct_storage_remove:
  "distinct (map fst st) \<Longrightarrow> distinct (map fst (storage_remove ks st))"
  unfolding storage_remove_def by (simp add: distinct_map_filter)

lemma getJobState_store [simp]: "getJobState (storeJobState jid s st) jid = Some s"
  by (simp add: getJobState_def storeJobState_def map_of_obj_set)

lemma getJobData_storeJobState [simp]:
  "getJobData (storeJobState jid s st) jid' = getJobData st jid'"
  by (simp add: getJobData_def storeJobState_def map_of_obj_set)

lemma buildInitialState_keys: "map fst (buildInitialState now) = ALL_CHANNELS"
  by (simp add: buildInitialState_def ALL_CHANNELS_def)

lemma buildInitialState_fresh:
  "list_all (\<lambda>e. status (snd e) = Some not_started) (buildInitialState now)"
  by (simp add: buildInitialState_def nowState_def spreadPatch_def emptyPatch_def)

lemma buildInitialState_fresh_or_running: "fresh_or_running (buildInitialState now)"
  by (simp add: fresh_or_running_def buildInitialState_def nowState_def spreadPatch_def
      emptyPatch_def)



section \<open>The TTL sweep\<close>

lemma in_expiredKeysD:
  "k \<in> set (expiredKeys now st) \<Longrightarrow>
     \<exists>e \<in> set st. isExpired now e \<and>
        (k = fst e \<or> k = stateKey (drop (length JOB_KEY_PREFIX) (fst e)))"
  by (induction st) (auto split: if_splits)

lemma in_expiredKeysI:
  "e \<in> set st \<Longrightarrow> isExpired now e \<Longrightarrow>
     fst e \<in> set (expiredKeys now st) \<and>
     stateKey (drop (length JOB_KEY_PREFIX) (fst e)) \<in> set (expiredKeys now st)"
  by (induction st) auto

lemma jobKey_expired_iff:
  assumes "distinct (map fst st)"
  shows "jobKey jid \<in> set (expiredKeys now st) \<longleftrightarrow>
           (\<exists>v. map_of st (jobKey jid) = Some v \<and> isExpired now (jobKey jid, v))"
proof
  assume "jobKey jid \<in> set (expiredKeys now st)"
  then obtain e where e: "e \<in> set st" "isExpired now e"
      "jobKey jid = fst e \<or> jobKey jid = stateKey (drop (length JOB_KEY_PREFIX) (fst e))"
    using in_expiredKeysD by blast
  from e(3) have "e = (jobKey jid, snd e)" by simp
  with e assms show "\<exists>v. map_of st (jobKey jid) = Some v \<and> isExpired now (jobKey jid, v)"
    by (metis map_of_eq_Some_iff)
next
  assume "\<exists>v. map_of st (jobKey jid) = Some v \<and> isExpired now (jobKey jid, v)"
  then obtain v where "(jobKey jid, v) \<in> set st" "isExpired now (jobKey jid, v)"
    by (auto dest: map_of_SomeD)
  then show "jobKey jid \<in> set (expiredKeys now st)"
    using in_expiredKeysI by fastforce
qed

lemma stateKey_expired_iff:
  assumes "distinct (map fst st)"
  shows "stateKey jid \<in> set (expiredKeys now st) \<longleftrightarrow>
           (\<exists>v. map_of st (jobKey jid) = Some v \<and> isExpired now (jobKey jid, v))"
proof
  assume "stateKey jid \<in> set (expiredKeys now st)"
  then obtain e where e: "e \<in> set st" "isExpired now e"
      "stateKey jid = fst e \<or> stateKey jid = stateKey (drop (length JOB_KEY_PREFIX) (fst e))"
    using in_expiredKeysD by blast
  from e(2) have p: "startsWith (fst e) JOB_KEY_PREFIX" by (simp add: isExpired_def)
  then have "stateKey jid \<noteq> fst e" using stateKey_not_job by metis
  with e(3) have "jid = drop (length JOB_KEY_PREFIX) (fst e)" by simp
  with startsWith_slice[OF p] have "e = (jobKey jid, snd e)" by simp
  with e assms show "\<exists>v. map_of st (jobKey jid) = Some v \<and> isExpired now (jobKey jid, v)"
    by (metis map_of_eq_Some_iff)
next
  assume "\<exists>v. map_of st (jobKey jid) = Some v \<and> isExpired now (jobKey jid, v)"
  then obtain v where "(jobKey jid, v) \<in> set st" "isExpired now (jobKey jid, v)"
    by (auto dest: map_of_SomeD)
  then show "stateKey jid \<in> set (expiredKeys now st)"
    using in_expiredKeysI[of "(jobKey jid, v)" st now] by simp
qed

lemma store_after_sweep: "snd (cleanExpiredData now st) = storage_remove (expiredKeys now st) st"
  by (cases "expiredKeys now st") (simp_all add: cleanExpiredData_def storage_remove_def)

lemma isExpired_job: "isExpired now (jobKey jid, v) \<longleftrightarrow> (\<exists>job. v = JobV job \<and> jobExpired now job)"
  by (cases v) (auto simp: isExpired_def jobExpired_def)

lemma getJobData_sweep:
  assumes "distinct (map fst st)"
  shows "getJobData (snd (cleanExpiredData now st)) jid =
           (case getJobData st jid of
              None \<Rightarrow> None
            | Some job \<Rightarrow> if jobExpired now job then None else Some job)"
proof (cases "map_of st (jobKey jid)")
  case None
  then show ?thesis
    by (simp add: getJobData_def store_after_sweep map_of_storage_remove)
next
  case (Some v)
  then show ?thesis
    by (cases v)
       (simp_all add: getJobData_def store_after_sweep map_of_storage_remove
          jobKey_expired_iff[OF assms] isExpired_job)
qed

lemma getJobState_sweep:
  assumes "distinct (map fst st)"
  shows "getJobState (snd (cleanExpiredData now st)) jid =
           (case getJobData st jid of
              None \<Rightarrow> getJobState st jid
            | Some job \<Rightarrow> if jobExpired now job then None else getJobState st jid)"
proof (cases "map_of st (jobKey jid)")
  case None
  then show ?thesis
    by (simp add: getJobData_def getJobState_def store_after_sweep map_of_storage_remove
          stateKey_expired_iff[OF assms])
next
  case (Some v)
  then show ?thesis
    by (cases v)
       (simp_all add: getJobData_def getJobState_def store_after_sweep map_of_storage_remove
          stateKey_expired_iff[OF assms] isExpired_job)
qed


text \<open>
  Claim C8. A sweep at time \<open>now\<close> deletes exactly the stored jobs whose \<open>now - createdAt\<close>
  exceeds 24 hours, job record and state record together. Every job record is written
  with \<open>createdAt = Date.now()\<close>, which is not zero; for such a job the sweep removes both
  records if \<open>now - createdAt\<close> exceeds 24 hours and reads both back unchanged if not, and
  the sweep at \<open>createdAt + 24h + 1s\<close> removes both, so that \<open>getJobData\<close> returns nothing.
  A state record whose job id has no job record is left alone. (The first two equations
  describe the sweep on any record, with the guard \<^verbatim>\<open>createdAt && ...\<close> of the code.)
\<close>

theorem cleanExpiredData_ttl:
  assumes "distinct (map fst st)"
  shows "getJobData (snd (cleanExpiredData now st)) jid =
           (case getJobData st jid of
              None \<Rightarrow> None
            | Some job \<Rightarrow> if jobExpired now job then None else Some job)
         \<and> getJobState (snd (cleanExpiredData now st)) jid =
           (case getJobData st jid of
              None \<Rightarrow> getJobState st jid
            | Some job \<Rightarrow> if jobExpired now job then None else getJobState st jid)
         \<and> (\<forall>job. getJobData st jid = Some job \<and> createdAt job \<noteq> 0 \<longrightarrow>
               getJobData (snd (cleanExpiredData now st)) jid
                 = (if now - createdAt job > EXPIRY_TIME then None else Some job)
               \<and> getJobState (snd (cleanExpiredData now st)) jid
                 = (if now - createdAt job > EXPIRY_TIME then None else getJobState st jid)
               \<and> getJobData (snd (cleanExpiredData (createdAt job + EXPIRY_TIME + 1000) st)) jid
                 = None
               \<and> getJobState (snd (cleanExpiredData (createdAt job + EXPIRY_TIME + 1000) st)) jid
                 = None)"
proof -
  have "jobExpired (createdAt job + EXPIRY_TIME + 1000) job" if "createdAt job \<noteq> 0" for job
    using that by (simp add: jobExpired_def)
  moreover have "jobExpired t job \<longleftrightarrow> t - createdAt job > EXPIRY_TIME"
    if "createdAt job \<noteq> 0" for job t
    using that by (simp add: jobExpired_def)
  ultimately show ?thesis
    by (simp add: getJobData_sweep[OF assms] getJobState_sweep[OF assms])
qed

theorem cleanExpiredData_ttl_witness:
  "distinct (map fst (store (exWorld (exJob ''J'' 1000))))
   \<and> getJobData (store (exWorld (exJob ''J'' 1000))) ''J'' = Some (exJob ''J'' 1000)
   \<and> createdAt (exJob ''J'' 1000) \<noteq> 0
   \<and> getJobData (snd (cleanExpiredData (1000 + EXPIRY_TIME)
         (store (exWorld (exJob ''J'' 1000))))) ''J'' = Some (exJob ''J'' 1000)
   \<and> getJobData (snd (cleanExpiredData (1000 + EXPIRY_TIME + 1000)
         (store (exWorld (exJob ''J'' 1000))))) ''J'' = None
   \<and> getJobState (snd (cleanExpiredData (1000 + EXPIRY_TIME + 1000)
         (store (exWorld (exJob ''J'' 1000))))) ''J'' = None"
proof -
  have d: "distinct (map fst (store (exWorld (exJob ''J'' 1000))))"
    by (simp add: exWorld_def exJob_def jobKey_def stateKey_def JOB_KEY_PREFIX_def
        STATE_KEY_PREFIX_def)
  have g: "getJobData (store (exWorld (exJob ''J'' 1000))) ''J'' = Some (exJob ''J'' 1000)"
    by (simp add: exWorld_def exJob_def getJobData_def)
  have c: "createdAt (exJob ''J'' 1000) = 1000"
    by (simp add: exJob_def)
  show ?thesis
    using d g c
      conjunct2[OF conjunct2[OF cleanExpiredData_ttl[OF d, of "1000 + EXPIRY_TIME" "''J''"]],
        rule_format, of "exJob ''J'' 1000"]
    by simp
qed

section \<open>ChannelUpdate\<close>

text \<open>
  Claim C4. A ChannelUpdate for a job whose \<open>stoppedAt\<close> is set changes nothing: cache,
  storage, registries and the log of sent messages are those of before, so nothing is
  merged, persisted or broadcast; and the message, carrying its job id and channel id as
  the type \<^verbatim>\<open>ChannelUpdate\<close> requires, is answered with success.
\<close>

theorem channelUpdate_after_stop:
  assumes "getJobData (store w) (cu_jobId m) = Some job" and "truthy (stoppedAt job)"
  shows "snd (handleV2ChannelUpdate now m src w) = w
         \<and> (cu_jobId m \<noteq> [] \<and> cu_channelId m \<noteq> [] \<longrightarrow>
              fst (handleV2ChannelUpdate now m src w) = Success)"
  using assms by (simp add: handleV2ChannelUpdate_def jobStopped_def Let_def)

theorem channelUpdate_after_stop_witness:
  "getJobData (store (exWorld ((exJob ''J'' 1000)\<lparr>stoppedAt := Some 2000\<rparr>))) (cu_jobId exUpdate)
       = Some ((exJob ''J'' 1000)\<lparr>stoppedAt := Some 2000\<rparr>)
   \<and> truthy (stoppedAt ((exJob ''J'' 1000)\<lparr>stoppedAt := Some 2000\<rparr>))
   \<and> cu_jobId exUpdate \<noteq> [] \<and> cu_channelId exUpdate \<noteq> []
   \<and> handleV2ChannelUpdate 3000 exUpdate (Some 9) (exWorld ((exJob ''J'' 1000)\<lparr>stoppedAt := Some 2000\<rparr>))
       = (Success, exWorld ((exJob ''J'' 1000)\<lparr>stoppedAt := Some 2000\<rparr>))"
proof -
  let ?job = "(exJob ''J'' 1000)\<lparr>stoppedAt := Some 2000\<rparr>"
  have a: "cu_jobId exUpdate \<noteq> []" "cu_channelId exUpdate \<noteq> []"
    by (simp_all add: exUpdate_def)
  have g: "getJobData (store (exWorld ?job)) (cu_jobId exUpdate) = Some ?job"
    by (simp add: exWorld_def exJob_def exUpdate_def getJobData_def)
  have t: "truthy (stoppedAt ?job)" by simp
  show ?thesis
    using a g t channelUpdate_after_stop[OF g t, of 3000 "Some 9"]
    by (simp add: prod_eq_iff)
qed

lemma obj_set_keys_mono: "fst ` set s \<subseteq> fst ` set (obj_set k v s)"
  by (induction s) auto

lemma broadcast_store [simp]: "store (broadcastJobState jid w) = store w"
  by (simp add: broadcastJobState_def split: option.splits)

lemma broadcast_cache [simp]: "jobStateCache (broadcastJobState jid w) = jobStateCache w"
  by (simp add: broadcastJobState_def split: option.splits)

lemma broadcast_ctx [simp]: "tabIdToContext (broadcastJobState jid w) = tabIdToContext w"
  by (simp add: broadcastJobState_def split: option.splits)

lemma broadcast_src [simp]: "jobIdToSourceTabId (broadcastJobState jid w) = jobIdToSourceTabId w"
  by (simp add: broadcastJobState_def split: option.splits)

lemma channelUpdate_applied:
  assumes "cu_jobId m \<noteq> []" "cu_channelId m \<noteq> []" "\<not> jobStopped (store w) (cu_jobId m)"
  shows "handleV2ChannelUpdate now m src w =
           (Success, broadcastJobState (cu_jobId m)
              (w\<lparr>jobStateCache := (jobStateCache w)(cu_jobId m \<mapsto> updatedState now m src w),
                 store := storeJobState (cu_jobId m) (updatedState now m src w) (store w)\<rparr>))"
  using assms by (simp add: handleV2ChannelUpdate_def Let_def)

lemma updatedState_others:
  "filter (\<lambda>e. fst e \<noteq> cu_channelId m) (updatedState now m src w) =
   filter (\<lambda>e. fst e \<noteq> cu_channelId m) (currentState now (cu_jobId m) w)"
  by (simp add: updatedState_def Let_def propertyAssign_def obj_set_others)

lemma updatedState_lookup_other:
  "c' \<noteq> cu_channelId m \<Longrightarrow>
     map_of (updatedState now m src w) c' = map_of (currentState now (cu_jobId m) w) c'"
  by (simp add: updatedState_def Let_def propertyAssign_def map_of_obj_set)

text \<open>
  Claim C6. A ChannelUpdate applied to a job that is not stopped is channel-local:
  the map it caches and persists has, for every channel other than the one named in
  the message, exactly the entries of the map it started from (the cached map when
  there is one), in the same order and with every field unchanged, whatever the patch.
\<close>

theorem channelUpdate_channel_local:
  assumes "cu_jobId m \<noteq> []" and "cu_channelId m \<noteq> []"
    and "\<not> jobStopped (store w) (cu_jobId m)"
  shows "\<exists>s'. jobStateCache (snd (handleV2ChannelUpdate now m src w)) (cu_jobId m) = Some s'
           \<and> getJobState (store (snd (handleV2ChannelUpdate now m src w))) (cu_jobId m) = Some s'
           \<and> filter (\<lambda>e. fst e \<noteq> cu_channelId m) s' =
               filter (\<lambda>e. fst e \<noteq> cu_channelId m) (currentState now (cu_jobId m) w)
           \<and> (\<forall>c'. c' \<noteq> cu_channelId m \<longrightarrow>
                 map_of s' c' = map_of (currentState now (cu_jobId m) w) c')
           \<and> (\<forall>s. jobStateCache w (cu_jobId m) = Some s \<longrightarrow>
                 currentState now (cu_jobId m) w = s)"
  by (simp add: channelUpdate_applied[OF assms] updatedState_others updatedState_lookup_other
      currentState_def)

theorem channelUpdate_channel_local_witness:
  "cu_jobId exUpdate \<noteq> [] \<and> cu_channelId exUpdate \<noteq> []
   \<and> \<not> jobStopped (store (exWorld (exJob ''J'' 1000))) (cu_jobId exUpdate)
   \<and> channelStatus (jobStateCache (snd (handleV2ChannelUpdate 3000 exUpdate (Some 9)
         (exWorld (exJob ''J'' 1000)))) ''J'') ''csdn'' = Some failed
   \<and> map_option (filter (\<lambda>e. fst e \<noteq> ''csdn''))
       (jobStateCache (snd (handleV2ChannelUpdate 3000 exUpdate (Some 9)
         (exWorld (exJob ''J'' 1000)))) ''J'')
     = Some (filter (\<lambda>e. fst e \<noteq> ''csdn'') (buildInitialState 1000))"
proof -
  let ?w = "exWorld (exJob ''J'' 1000)"
  have a: "cu_jobId exUpdate \<noteq> []" "cu_channelId exUpdate \<noteq> []"
    by (simp_all add: exUpdate_def)
  have n: "\<not> jobStopped (store ?w) (cu_jobId exUpdate)"
    by (simp add: jobStopped_def exWorld_def exJob_def exUpdate_def getJobData_def)
  have cur: "currentState 3000 ''J'' ?w = buildInitialState 1000"
    by (simp add: currentState_def exWorld_def exJob_def)
  have st: "channelStatus (jobStateCache (snd (handleV2ChannelUpdate 3000 exUpdate (Some 9) ?w)) ''J'')
       ''csdn'' = Some failed"
    unfolding channelUpdate_applied[OF a n]
    by (simp add: updatedState_def Let_def channelStatus_def propertyAssign_def messagePatch_def
        map_of_obj_set mergeUpdate_def spreadPatch_def emptyPatch_def exUpdate_def)
  from channelUpdate_channel_local[OF a n, of 3000 "Some 9"]
  obtain s' where s': "jobStateCache (snd (handleV2ChannelUpdate 3000 exUpdate (Some 9) ?w))
        (cu_jobId exUpdate) = Some s'"
      "filter (\<lambda>e. fst e \<noteq> cu_channelId exUpdate) s' =
         filter (\<lambda>e. fst e \<noteq> cu_channelId exUpdate) (currentState 3000 (cu_jobId exUpdate) ?w)"
    by blast
  have id: "cu_jobId exUpdate = ''J''" "cu_channelId exUpdate = ''csdn''"
    by (simp_all add: exUpdate_def)
  show ?thesis
    using a n st s' unfolding id cur by simp
qed





text \<open>
  Outside the supported channels the same handler can write an entry that has no status:
  \<^verbatim>\<open>constructor\<close> is no own key of the default map, but \<^verbatim>\<open>current[channelId]\<close> finds the
  inherited member, so \<^verbatim>\<open>nowState\<close> is not used.
\<close>

lemma channelUpdate_inherited_key:
  "channelStatus (jobStateCache (snd (handleV2ChannelUpdate 3000
       \<lparr> cu_jobId = ''J'', cu_channelId = ''constructor'', cu_patch = None \<rparr> (Some 9) emptyWorld))
     ''J'') ''constructor'' = None
   \<and> map_option length (jobStateCache (snd (handleV2ChannelUpdate 3000
       \<lparr> cu_jobId = ''J'', cu_channelId = ''constructor'', cu_patch = None \<rparr> (Some 9) emptyWorld))
     ''J'') = Some 11"
  by code_simp

section \<open>StartJob and RequestStop\<close>

lemma openTab_cases:
  obtains (fail) c msg where "r = (c, CreateFailed msg)"
  | (noid) c tid where "r = (c, Created tid)" "\<not> truthy tid"
  | (ok) c t where "r = (c, Created (Some t))" "t \<noteq> 0"
proof (cases r)
  case (Pair c res)
  show ?thesis
  proof (cases res)
    case (Created tid)
    then show ?thesis using Pair noid ok by (cases tid) auto
  next
    case (CreateFailed msg)
    then show ?thesis using Pair fail by simp
  qed
qed

lemma openTab_noid [simp]: "\<not> truthy tid \<Longrightarrow> openTab now jid (c, Created tid) acc = acc"
  by (cases tid) auto

lemma openTab_error:
  "acc_error (openTab now jid r acc) =
     (case acc_error acc of
        Some e \<Rightarrow> Some e
      | None \<Rightarrow> (case snd r of CreateFailed msg \<Rightarrow> Some msg | Created tid \<Rightarrow> None))"
  by (cases r rule: openTab_cases) (auto split: option.splits)

lemma openTab_keys: "map fst (acc_state (openTab now jid r acc)) = map fst (acc_state acc)"
  by (cases r rule: openTab_cases) (auto split: option.splits simp: obj_set_keys)

lemma fresh_or_running_obj_set:
  "fresh_or_running s \<Longrightarrow> status v = Some running \<Longrightarrow> fresh_or_running (obj_set c v s)"
  using set_obj_set[of c v s] unfolding fresh_or_running_def list_all_iff by fastforce

lemma openTab_status:
  "fresh_or_running (acc_state acc) \<Longrightarrow> fresh_or_running (acc_state (openTab now jid r acc))"
  by (cases r rule: openTab_cases) (auto split: option.splits simp: fresh_or_running_obj_set)

lemma openTab_untouched:
  "fst r = c \<longrightarrow> \<not> spawned (snd r) \<Longrightarrow>
     map_of (acc_state (openTab now jid r acc)) c = map_of (acc_state acc) c"
  by (cases r rule: openTab_cases) (auto split: option.splits simp: map_of_obj_set)

lemma openTab_running_kept:
  "channelStatus (Some (acc_state acc)) c = Some running \<Longrightarrow>
     channelStatus (Some (acc_state (openTab now jid r acc))) c = Some running"
  by (cases r rule: openTab_cases)
     (auto split: option.splits simp: map_of_obj_set channelStatus_def)

lemma openTab_running:
  "spawned r \<Longrightarrow> c \<in> set (map fst (acc_state acc)) \<Longrightarrow>
     channelStatus (Some (acc_state (openTab now jid (c, r) acc))) c = Some running"
proof (cases "(c, r)" rule: openTab_cases)
  case (ok c' t)
  assume "c \<in> set (map fst (acc_state acc))"
  then obtain prev where "map_of (acc_state acc) c = Some prev"
    by (metis list.set_map map_of_eq_None_iff not_Some_eq)
  with ok show ?thesis by (simp add: channelStatus_def map_of_obj_set)
qed auto

lemma openTabs_error_kept:
  "acc_error acc = Some e \<Longrightarrow> acc_error (openTabs now jid rs acc) = Some e"
  by (induction rs arbitrary: acc) (simp_all add: openTab_error)

lemma openTabs_error_none:
  "acc_error (openTabs now jid rs acc) = None \<longleftrightarrow>
     acc_error acc = None \<and> (\<forall>r \<in> set rs. \<not> rejected (snd r))"
proof (induction rs arbitrary: acc)
  case Nil
  then show ?case by simp
next
  case (Cons r rs)
  have "acc_error (openTab now jid r acc) = None \<longleftrightarrow> acc_error acc = None \<and> \<not> rejected (snd r)"
    by (cases "snd r") (auto simp: openTab_error split: option.splits)
  with Cons show ?case by auto
qed

lemma openTabs_error_first:
  "acc_error acc = None \<Longrightarrow> i < length rs \<Longrightarrow> snd (rs ! i) = CreateFailed msg \<Longrightarrow>
     (\<forall>j<i. \<not> rejected (snd (rs ! j))) \<Longrightarrow>
     acc_error (openTabs now jid rs acc) = Some msg"
proof (induction rs arbitrary: i acc)
  case Nil
  then show ?case by simp
next
  case (Cons r rs)
  show ?case
  proof (cases i)
    case 0
    with Cons.prems show ?thesis by (simp add: openTabs_error_kept openTab_error)
  next
    case (Suc k)
    have "\<not> rejected (snd r)" using Cons.prems(4) Suc by auto
    then have e: "acc_error (openTab now jid r acc) = None"
      using Cons.prems(1) by (cases "snd r") (auto simp: openTab_error)
    have "\<forall>j<k. \<not> rejected (snd (rs ! j))" using Cons.prems(4) Suc by auto
    with Cons.IH[OF e, of k] Cons.prems Suc show ?thesis by simp
  qed
qed

lemma openTabs_keys:
  "map fst (acc_state (openTabs now jid rs acc)) = map fst (acc_state acc)"
  by (induction rs arbitrary: acc) (simp_all add: openTab_keys)

lemma openTabs_status:
  "fresh_or_running (acc_state acc) \<Longrightarrow> fresh_or_running (acc_state (openTabs now jid rs acc))"
  by (induction rs arbitrary: acc) (simp_all add: openTab_status)

lemma openTabs_untouched:
  "(\<forall>r \<in> set rs. fst r = c \<longrightarrow> \<not> spawned (snd r)) \<Longrightarrow>
     map_of (acc_state (openTabs now jid rs acc)) c = map_of (acc_state acc) c"
  by (induction rs arbitrary: acc) (simp_all add: openTab_untouched)

lemma openTabs_running_kept:
  "channelStatus (Some (acc_state acc)) c = Some running \<Longrightarrow>
     channelStatus (Some (acc_state (openTabs now jid rs acc))) c = Some running"
  by (induction rs arbitrary: acc) (simp_all add: openTab_running_kept)

lemma openTabs_running:
  "(c, r) \<in> set rs \<Longrightarrow> spawned r \<Longrightarrow> c \<in> set (map fst (acc_state acc)) \<Longrightarrow>
     channelStatus (Some (acc_state (openTabs now jid rs acc))) c = Some running"
proof (induction rs arbitrary: acc)
  case Nil
  then show ?case by simp
next
  case (Cons x rs)
  show ?case
  proof (cases "x = (c, r)")
    case True
    with Cons.prems show ?thesis
      by (simp add: openTabs_running_kept openTab_running del: set_map)
  next
    case False
    with Cons.prems have "(c, r) \<in> set rs" by simp
    moreover have "c \<in> set (map fst (acc_state (openTab now jid x acc)))"
      using Cons.prems(3) by (simp only: openTab_keys)
    ultimately show ?thesis using Cons.IH Cons.prems(2) by simp
  qed
qed

lemma broadcast_sent_none:
  "jobIdToSourceTabId w jid = None \<Longrightarrow> sent (broadcastJobState jid w) = sent w"
  by (simp add: broadcastJobState_def)


lemma broadcast_sent_prefix: "\<exists>rest. sent (broadcastJobState jid w) = sent w @ rest"
  by (simp add: broadcastJobState_def split: option.splits)

lemma spawnOutcome_keys:
  "map fst (acc_state (spawnOutcome now jid spawn settle cs ctx s)) = map fst s"
  by (simp add: spawnOutcome_def openTabs_keys)

lemma spawnOutcome_status:
  "fresh_or_running s \<Longrightarrow> fresh_or_running (acc_state (spawnOutcome now jid spawn settle cs ctx s))"
  by (simp add: spawnOutcome_def openTabs_status)

lemma openTabs_append:
  "openTabs now jid (xs @ ys) acc = openTabs now jid ys (openTabs now jid xs acc)"
  by (induction xs arbitrary: acc) simp_all

lemma set_settleOrder [simp]: "set (settleOrder settle n) = {0..<n}"
  by (simp add: settleOrder_def)

lemma in_set_spawns:
  "r \<in> set (map (\<lambda>i. (cs ! i, spawn i)) (settleOrder settle (length cs))) \<longleftrightarrow>
     (\<exists>i<length cs. r = (cs ! i, spawn i))"
  by auto

lemma ball_spawns:
  "(\<forall>r \<in> set (map (\<lambda>i. (cs ! i, spawn i)) (settleOrder settle (length cs))). P r) \<longleftrightarrow>
     (\<forall>i<length cs. P (cs ! i, spawn i))"
  by auto

lemma spawnOutcome_error_none:
  "acc_error (spawnOutcome now jid spawn settle cs ctx s) = None \<longleftrightarrow>
     (\<forall>i<length cs. \<not> rejected (spawn i))"
  unfolding spawnOutcome_def openTabs_error_none ball_spawns by simp

text \<open>The failure reported is that of the rejected creation that settles first.\<close>

lemma spawnOutcome_error_first:
  assumes i: "i < length cs" and f: "spawn i = CreateFailed msg"
    and first: "\<forall>j<length cs. j \<noteq> i \<and> rejected (spawn j) \<longrightarrow> settle i < settle j"
  shows "acc_error (spawnOutcome now jid spawn settle cs ctx s) = Some msg"
proof -
  let ?xs = "settleOrder settle (length cs)"
  let ?f = "\<lambda>i. (cs ! i, spawn i)"
  let ?acc = "\<lparr> acc_ctx = ctx, acc_state = s, acc_error = None \<rparr>"
  have "i \<in> set ?xs" using i by simp
  then obtain pre post where xs: "?xs = pre @ i # post" and npre: "i \<notin> set pre"
    by (meson split_list_first)
  have "sorted (map settle ?xs)" by (simp add: settleOrder_def)
  then have le: "\<forall>j \<in> set pre. settle j \<le> settle i"
    unfolding xs by (simp add: sorted_append)
  have "set pre \<subseteq> {0..<length cs}"
    using set_settleOrder[of settle "length cs"] unfolding xs by auto
  then have ok: "\<forall>r \<in> set (map ?f pre). \<not> rejected (snd r)"
    using le npre first by fastforce
  have "acc_error (openTabs now jid (map ?f pre) ?acc) = None"
    unfolding openTabs_error_none using ok by simp
  then have "acc_error (openTab now jid (?f i) (openTabs now jid (map ?f pre) ?acc)) = Some msg"
    using f by (simp add: openTab_error)
  then have "acc_error (openTabs now jid (map ?f ?xs) ?acc) = Some msg"
    unfolding xs by (simp add: openTabs_append openTabs_error_kept)
  then show ?thesis by (simp add: spawnOutcome_def)
qed

lemma spawnOutcome_untouched:
  "(\<forall>i<length cs. cs ! i = c \<longrightarrow> \<not> spawned (spawn i)) \<Longrightarrow>
     map_of (acc_state (spawnOutcome now jid spawn settle cs ctx s)) c = map_of s c"
  unfolding spawnOutcome_def
  by (subst openTabs_untouched) (simp_all only: ball_spawns fst_conv snd_conv spawnAcc.simps)

lemma spawnOutcome_running:
  "i < length cs \<Longrightarrow> spawned (spawn i) \<Longrightarrow> cs ! i \<in> set (map fst s) \<Longrightarrow>
     channelStatus (Some (acc_state (spawnOutcome now jid spawn settle cs ctx s))) (cs ! i) = Some running"
  unfolding spawnOutcome_def
  by (rule openTabs_running[where r = "spawn i"]) (auto simp: in_set_spawns simp del: set_map)

lemma startJob_response:
  "validArticle m \<Longrightarrow>
     fst (handleV2StartJob now newId spawn settle m senderTab w) =
       (case acc_error (spawnOutcome now newId spawn settle (channelsToRun m) (tabIdToContext w)
                          (buildInitialState now)) of
          Some msg \<Rightarrow> Failure msg
        | None \<Rightarrow> SuccessJob newId)"
  by (auto simp: validArticle_def handleV2StartJob_def Let_def split: option.splits)

lemma startJob_cache:
  "validArticle m \<Longrightarrow>
     jobStateCache (snd (handleV2StartJob now newId spawn settle m senderTab w)) newId =
       Some (acc_state (spawnOutcome now newId spawn settle (channelsToRun m) (tabIdToContext w)
                          (buildInitialState now)))"
  by (auto simp: validArticle_def handleV2StartJob_def Let_def split: option.splits)

lemma startJob_stored:
  "validArticle m \<Longrightarrow>
     getJobState (store (snd (handleV2StartJob now newId spawn settle m senderTab w))) newId =
       Some (case acc_error (spawnOutcome now newId spawn settle (channelsToRun m) (tabIdToContext w)
                          (buildInitialState now)) of
               Some msg \<Rightarrow> buildInitialState now
             | None \<Rightarrow> acc_state (spawnOutcome now newId spawn settle (channelsToRun m)
                          (tabIdToContext w) (buildInitialState now)))"
  by (auto simp: validArticle_def handleV2StartJob_def Let_def split: option.splits)

lemma startJob_sent_rejected:
  "validArticle m \<Longrightarrow>
   acc_error (spawnOutcome now newId spawn settle (channelsToRun m) (tabIdToContext w)
                (buildInitialState now)) = Some msg \<Longrightarrow>
     sent (snd (handleV2StartJob now newId spawn settle m senderTab w)) =
       sent w @ map (\<lambda>c. TabCreate (entryUrls c) (c = req_focusChannel m)) (channelsToRun m)"
  by (auto simp: validArticle_def handleV2StartJob_def Let_def split: option.splits)

lemma startJob_sent_prefix:
  "validArticle m \<Longrightarrow>
     \<exists>rest. sent (snd (handleV2StartJob now newId spawn settle m senderTab w)) =
       sent w @ map (\<lambda>c. TabCreate (entryUrls c) (c = req_focusChannel m)) (channelsToRun m) @ rest"
  by (auto simp: validArticle_def handleV2StartJob_def Let_def broadcastJobState_def
      split: option.splits)




lemma spawnOutcome_length:
  "length (acc_state (spawnOutcome now jid spawn settle cs ctx (buildInitialState t))) = 10"
proof -
  have "length (map fst (acc_state (spawnOutcome now jid spawn settle cs ctx (buildInitialState t))))
          = length ALL_CHANNELS"
    by (simp only: spawnOutcome_keys buildInitialState_keys)
  then show ?thesis by (simp add: ALL_CHANNELS_def)
qed

text \<open>
  Claim C10. A valid StartJob whose channel list is omitted or empty runs every one of
  the 10 supported channels; a non-empty list is filtered to its supported ids, the
  others being dropped without an error: a tab is requested for each remaining channel,
  and when no tab creation is rejected the answer is success with the job id.
\<close>

theorem startJob_channel_selection:
  assumes "validArticle m"
  shows "(req_channels m = None \<or> req_channels m = Some [] \<longrightarrow> channelsToRun m = ALL_CHANNELS)
         \<and> (\<forall>cs. req_channels m = Some cs \<and> cs \<noteq> [] \<longrightarrow>
               channelsToRun m = filter (\<lambda>c. c \<in> set ALL_CHANNELS) cs)
         \<and> (\<exists>rest. sent (snd (handleV2StartJob now newId spawn settle m senderTab w)) =
               sent w @ map (\<lambda>c. TabCreate (entryUrls c) (c = req_focusChannel m)) (channelsToRun m)
                 @ rest)
         \<and> ((\<forall>i<length (channelsToRun m). \<not> rejected (spawn i)) \<longrightarrow>
               fst (handleV2StartJob now newId spawn settle m senderTab w) = SuccessJob newId)
         \<and> length ALL_CHANNELS = 10 \<and> distinct ALL_CHANNELS"
proof (intro conjI)
  show "req_channels m = None \<or> req_channels m = Some [] \<longrightarrow> channelsToRun m = ALL_CHANNELS"
    by (auto simp: channelsToRun_def)
  show "\<forall>cs. req_channels m = Some cs \<and> cs \<noteq> [] \<longrightarrow>
               channelsToRun m = filter (\<lambda>c. c \<in> set ALL_CHANNELS) cs"
    by (simp add: channelsToRun_def)
  show "\<exists>rest. sent (snd (handleV2StartJob now newId spawn settle m senderTab w)) =
               sent w @ map (\<lambda>c. TabCreate (entryUrls c) (c = req_focusChannel m)) (channelsToRun m)
                 @ rest"
    by (rule startJob_sent_prefix[OF assms])
  show "(\<forall>i<length (channelsToRun m). \<not> rejected (spawn i)) \<longrightarrow>
               fst (handleV2StartJob now newId spawn settle m senderTab w) = SuccessJob newId"
  proof
    assume "\<forall>i<length (channelsToRun m). \<not> rejected (spawn i)"
    then have "acc_error (spawnOutcome now newId spawn settle (channelsToRun m) (tabIdToContext w)
                 (buildInitialState now)) = None"
      by (simp add: spawnOutcome_error_none)
    then show "fst (handleV2StartJob now newId spawn settle m senderTab w) = SuccessJob newId"
      by (simp add: startJob_response[OF assms])
  qed
  show "length ALL_CHANNELS = 10" by (simp add: ALL_CHANNELS_def)
  show "distinct ALL_CHANNELS" by (simp add: ALL_CHANNELS_def)
qed

theorem startJob_channel_selection_witness:
  "validArticle (exStart (Some [''csdn'', ''weibo'']))
   \<and> channelsToRun (exStart (Some [''csdn'', ''weibo''])) = [''csdn'']
   \<and> \<not> rejected (exSpawn 0)
   \<and> fst (handleV2StartJob 1000 ''J'' exSpawn exSettle (exStart (Some [''csdn'', ''weibo''])) (Some 5) emptyWorld)
       = SuccessJob ''J''"
proof -
  have v: "validArticle (exStart (Some [''csdn'', ''weibo'']))"
    by (simp add: validArticle_def exStart_def exArticle_def)
  have c: "channelsToRun (exStart (Some [''csdn'', ''weibo''])) = [''csdn'']"
    by (simp add: channelsToRun_def exStart_def ALL_CHANNELS_def)
  have r: "\<forall>i<length (channelsToRun (exStart (Some [''csdn'', ''weibo'']))). \<not> rejected (exSpawn i)"
    by (simp add: exSpawn_def)
  from startJob_channel_selection[OF v, of 1000 "''J''" exSpawn exSettle "Some 5" emptyWorld]
  have "(\<forall>i<length (channelsToRun (exStart (Some [''csdn'', ''weibo'']))). \<not> rejected (exSpawn i)) \<longrightarrow>
      fst (handleV2StartJob 1000 ''J'' exSpawn exSettle (exStart (Some [''csdn'', ''weibo''])) (Some 5) emptyWorld)
       = SuccessJob ''J''"
    by (elim conjE)
  with r v c show ?thesis by (simp add: exSpawn_def)
qed

text \<open>
  Claim C1, as amended. For every valid StartJob call, whatever the number \<open>k\<close> of selected
  channels, the state map cached and the one persisted at start have exactly 10 entries,
  one per supported channel in the order of \<open>ALL_CHANNELS\<close>, each built at
  \<open>not_started\<close>; after the spawn every entry is \<open>not_started\<close> or \<open>running\<close>, so none is
  \<open>success\<close> or \<open>failed\<close>; the entries of channels that were not selected are the initial
  ones; on success the persisted map is the cached one.
\<close>

theorem startJob_state_map:
  assumes "validArticle m"
  shows "\<exists>s p. jobStateCache (snd (handleV2StartJob now newId spawn settle m senderTab w)) newId = Some s
           \<and> getJobState (store (snd (handleV2StartJob now newId spawn settle m senderTab w))) newId = Some p
           \<and> map fst s = ALL_CHANNELS \<and> map fst p = ALL_CHANNELS
           \<and> length s = 10 \<and> length p = 10
           \<and> fresh_or_running s \<and> fresh_or_running p
           \<and> (fst (handleV2StartJob now newId spawn settle m senderTab w) = SuccessJob newId \<longrightarrow> p = s)
           \<and> (\<forall>c. c \<notin> set (channelsToRun m) \<longrightarrow> map_of s c = map_of (buildInitialState now) c)
           \<and> list_all (\<lambda>e. status (snd e) = Some not_started) (buildInitialState now)"
proof -
  define acc where "acc = spawnOutcome now newId spawn settle (channelsToRun m) (tabIdToContext w)
                (buildInitialState now)"
  define p where "p = (case acc_error acc of Some msg \<Rightarrow> buildInitialState now
                       | None \<Rightarrow> acc_state acc)"
  have c: "jobStateCache (snd (handleV2StartJob now newId spawn settle m senderTab w)) newId
             = Some (acc_state acc)"
    unfolding acc_def by (rule startJob_cache[OF assms])
  have g: "getJobState (store (snd (handleV2StartJob now newId spawn settle m senderTab w))) newId = Some p"
    unfolding acc_def p_def by (rule startJob_stored[OF assms])
  have ks: "map fst (acc_state acc) = ALL_CHANNELS"
    by (simp add: acc_def spawnOutcome_keys buildInitialState_keys)
  have kp: "map fst p = ALL_CHANNELS"
    using ks by (simp add: p_def buildInitialState_keys split: option.splits)
  have ls: "length (acc_state acc) = 10"
    unfolding acc_def by (rule spawnOutcome_length)
  have lp: "length p = 10"
    using ls by (simp add: p_def buildInitialState_def split: option.splits)
  have fs: "fresh_or_running (acc_state acc)"
    by (simp add: acc_def spawnOutcome_status buildInitialState_fresh_or_running)
  have fp: "fresh_or_running p"
    using fs by (simp add: p_def buildInitialState_fresh_or_running split: option.splits)
  have eq: "fst (handleV2StartJob now newId spawn settle m senderTab w) = SuccessJob newId \<longrightarrow>
              p = acc_state acc"
    by (simp add: startJob_response[OF assms] p_def acc_def split: option.splits)
  have un: "\<forall>c. c \<notin> set (channelsToRun m) \<longrightarrow>
              map_of (acc_state acc) c = map_of (buildInitialState now) c"
    unfolding acc_def by (auto intro!: spawnOutcome_untouched)
  show ?thesis
    by (intro exI[of _ "acc_state acc"] exI[of _ p] conjI c g ks kp ls lp fs fp eq un
        buildInitialState_fresh)
qed

theorem startJob_state_map_witness:
  "validArticle (exStart (Some [''csdn'', ''cnblogs'']))
   \<and> map_option (map fst) (jobStateCache (snd (handleV2StartJob 1000 ''J'' exSpawn exSettle
         (exStart (Some [''csdn'', ''cnblogs''])) (Some 5) emptyWorld)) ''J'') = Some ALL_CHANNELS
   \<and> map_option fresh_or_running (getJobState (store (snd (handleV2StartJob 1000 ''J'' exSpawn exSettle
         (exStart (Some [''csdn'', ''cnblogs''])) (Some 5) emptyWorld))) ''J'') = Some True"
proof -
  have v: "validArticle (exStart (Some [''csdn'', ''cnblogs'']))"
    by (simp add: validArticle_def exStart_def exArticle_def)
  from startJob_state_map[OF v, of 1000 "''J''" exSpawn exSettle "Some 5" emptyWorld]
  obtain s p where
    "jobStateCache (snd (handleV2StartJob 1000 ''J'' exSpawn exSettle
         (exStart (Some [''csdn'', ''cnblogs''])) (Some 5) emptyWorld)) ''J'' = Some s"
    "getJobState (store (snd (handleV2StartJob 1000 ''J'' exSpawn exSettle
         (exStart (Some [''csdn'', ''cnblogs''])) (Some 5) emptyWorld))) ''J'' = Some p"
    "map fst s = ALL_CHANNELS" "fresh_or_running p"
    by (elim exE conjE)
  with v show ?thesis by simp
qed

text \<open>
  The claim as written fails with one selected channel: the map has 10 entries, not 1.
\<close>

theorem startJob_one_channel_counterexample:
  "validArticle (exStart (Some [''csdn'']))
   \<and> length (channelsToRun (exStart (Some [''csdn'']))) = 1
   \<and> map_option length (jobStateCache (snd (handleV2StartJob 1000 ''J'' exSpawn exSettle
         (exStart (Some [''csdn''])) (Some 5) emptyWorld)) ''J'') = Some 10
   \<and> map_option length (getJobState (store (snd (handleV2StartJob 1000 ''J'' exSpawn exSettle
         (exStart (Some [''csdn''])) (Some 5) emptyWorld))) ''J'') = Some 10"
proof -
  have v: "validArticle (exStart (Some [''csdn'']))"
    by (simp add: validArticle_def exStart_def exArticle_def)
  have c: "channelsToRun (exStart (Some [''csdn''])) = [''csdn'']"
    by (simp add: channelsToRun_def exStart_def ALL_CHANNELS_def)
  have b: "length (buildInitialState t) = 10" for t
    by (simp add: buildInitialState_def)
  show ?thesis
    using v c by (simp add: startJob_cache[OF v] startJob_stored[OF v] spawnOutcome_length b
        split: option.splits)
qed

lemma channelsToRun_supported: "set (channelsToRun m) \<subseteq> set ALL_CHANNELS"
  by (auto simp: channelsToRun_def)

lemma buildInitialState_status:
  "c \<in> set ALL_CHANNELS \<Longrightarrow> channelStatus (Some (buildInitialState now)) c = Some not_started"
  by (auto simp: ALL_CHANNELS_def buildInitialState_def channelStatus_def nowState_def
      spreadPatch_def emptyPatch_def)

lemma filter_broadcast_tabs [simp]:
  "filter isBroadcast (map (\<lambda>c. TabCreate (f c) (g c)) cs) = []"
  by (induction cs) auto

text \<open>
  What a valid StartJob does when the tab creation for one selected channel is rejected.
  It fails as a whole: the answer is a failure (with the message of the rejection that
  settles first), the only messages sent are the tab requests, one for every selected
  channel, nothing is broadcast, and the persisted map stays the initial one. No channel
  is marked \<open>failed\<close>: in the cached map every entry is \<open>not_started\<close> or \<open>running\<close>, a
  selected channel whose tab was created is \<open>running\<close>, and the rejected channel, unless
  another spawn for it succeeded, stays \<open>not_started\<close>.
\<close>

lemma startJob_rejected_outcome:
  assumes "validArticle m" and "i < length (channelsToRun m)" and "spawn i = CreateFailed msg"
  shows "(\<exists>e. fst (handleV2StartJob now newId spawn settle m senderTab w) = Failure e)
         \<and> ((\<forall>j<length (channelsToRun m). j \<noteq> i \<and> rejected (spawn j) \<longrightarrow> settle i < settle j) \<longrightarrow>
               fst (handleV2StartJob now newId spawn settle m senderTab w) = Failure msg)
         \<and> sent (snd (handleV2StartJob now newId spawn settle m senderTab w)) =
             sent w @ map (\<lambda>c. TabCreate (entryUrls c) (c = req_focusChannel m)) (channelsToRun m)
         \<and> getJobState (store (snd (handleV2StartJob now newId spawn settle m senderTab w))) newId
             = Some (buildInitialState now)
         \<and> (\<exists>s. jobStateCache (snd (handleV2StartJob now newId spawn settle m senderTab w)) newId = Some s
               \<and> fresh_or_running s
               \<and> (\<forall>j<length (channelsToRun m). spawned (spawn j) \<longrightarrow>
                     channelStatus (Some s) (channelsToRun m ! j) = Some running)
               \<and> ((\<forall>j<length (channelsToRun m).
                       channelsToRun m ! j = channelsToRun m ! i \<longrightarrow> \<not> spawned (spawn j)) \<longrightarrow>
                     channelStatus (Some s) (channelsToRun m ! i) = Some not_started))"
proof -
  define acc where "acc = spawnOutcome now newId spawn settle (channelsToRun m) (tabIdToContext w)
                (buildInitialState now)"
  have "rejected (spawn i)" using assms(3) by simp
  then have "acc_error acc \<noteq> None"
    unfolding acc_def spawnOutcome_error_none using assms(2) by blast
  then obtain e where e: "acc_error acc = Some e" by blast
  have r1: "\<exists>e. fst (handleV2StartJob now newId spawn settle m senderTab w) = Failure e"
    using e by (simp add: startJob_response[OF assms(1)] acc_def[symmetric])
  have r2: "(\<forall>j<length (channelsToRun m). j \<noteq> i \<and> rejected (spawn j) \<longrightarrow> settle i < settle j) \<longrightarrow>
               fst (handleV2StartJob now newId spawn settle m senderTab w) = Failure msg"
  proof
    assume "\<forall>j<length (channelsToRun m). j \<noteq> i \<and> rejected (spawn j) \<longrightarrow> settle i < settle j"
    then have "acc_error acc = Some msg"
      unfolding acc_def using assms(2,3) by (intro spawnOutcome_error_first)
    then show "fst (handleV2StartJob now newId spawn settle m senderTab w) = Failure msg"
      by (simp add: startJob_response[OF assms(1)] acc_def[symmetric])
  qed
  have r3: "sent (snd (handleV2StartJob now newId spawn settle m senderTab w)) =
             sent w @ map (\<lambda>c. TabCreate (entryUrls c) (c = req_focusChannel m)) (channelsToRun m)"
    using e unfolding acc_def by (rule startJob_sent_rejected[OF assms(1)])
  have r4: "getJobState (store (snd (handleV2StartJob now newId spawn settle m senderTab w))) newId
             = Some (buildInitialState now)"
    using e by (simp add: startJob_stored[OF assms(1)] acc_def[symmetric])
  have c: "jobStateCache (snd (handleV2StartJob now newId spawn settle m senderTab w)) newId
             = Some (acc_state acc)"
    unfolding acc_def by (rule startJob_cache[OF assms(1)])
  have fs: "fresh_or_running (acc_state acc)"
    by (simp add: acc_def spawnOutcome_status buildInitialState_fresh_or_running)
  have sup: "channelsToRun m ! j \<in> set ALL_CHANNELS" if "j < length (channelsToRun m)" for j
    using that channelsToRun_supported[of m] by (meson nth_mem subsetD)
  have run: "\<forall>j<length (channelsToRun m). spawned (spawn j) \<longrightarrow>
                     channelStatus (Some (acc_state acc)) (channelsToRun m ! j) = Some running"
    unfolding acc_def using sup
    by (auto intro!: spawnOutcome_running simp: buildInitialState_keys simp del: set_map)
  have stay: "(\<forall>j<length (channelsToRun m).
                 channelsToRun m ! j = channelsToRun m ! i \<longrightarrow> \<not> spawned (spawn j)) \<longrightarrow>
               channelStatus (Some (acc_state acc)) (channelsToRun m ! i) = Some not_started"
  proof
    assume a: "\<forall>j<length (channelsToRun m).
                 channelsToRun m ! j = channelsToRun m ! i \<longrightarrow> \<not> spawned (spawn j)"
    have "map_of (acc_state acc) (channelsToRun m ! i)
            = map_of (buildInitialState now) (channelsToRun m ! i)"
      unfolding acc_def using a by (intro spawnOutcome_untouched) simp
    then have "channelStatus (Some (acc_state acc)) (channelsToRun m ! i)
            = channelStatus (Some (buildInitialState now)) (channelsToRun m ! i)"
      by (simp add: channelStatus_def)
    then show "channelStatus (Some (acc_state acc)) (channelsToRun m ! i) = Some not_started"
      using buildInitialState_status[OF sup[OF assms(2)]] by simp
  qed
  show ?thesis
    by (intro conjI r1 r2 r3 r4 exI[of _ "acc_state acc"] c fs run stay)
qed

text \<open>With two rejections the answer carries the one that settled first, not the first in the list.\<close>

lemma startJob_first_rejection_in_time:
  "fst (handleV2StartJob 1000 ''J'' exSpawnTwoFail exSettleRev (exStart (Some [''csdn'', ''cnblogs'']))
          (Some 5) emptyWorld) = Failure ''early''
   \<and> fst (handleV2StartJob 1000 ''J'' exSpawnTwoFail exSettle (exStart (Some [''csdn'', ''cnblogs'']))
          (Some 5) emptyWorld) = Failure ''late''"
  by code_simp

text \<open>
  Claim C2: a spawn failure for one selected channel must not fail the job; that channel
  is to be marked \<open>failed\<close> and the others proceed. The code does not do this. Evaluated on
  a valid StartJob for \<open>csdn\<close> and \<open>cnblogs\<close> where the tab creation for \<open>csdn\<close> is rejected with
  \<open>boom\<close> and the one for \<open>cnblogs\<close> yields tab 8: the answer is the failure \<open>boom\<close>, although
  the job record is stored and both tabs were requested; \<open>csdn\<close> is left at \<open>not_started\<close>,
  not \<open>failed\<close>; \<open>cnblogs\<close> is \<open>running\<close> in the cache but still \<open>not_started\<close> in the
  persisted map, and nothing is broadcast. (\<^verbatim>\<open>handleV2StopJob\<close> guards each channel of
  its own \<^verbatim>\<open>Promise.all\<close> with \<^verbatim>\<open>try/catch\<close>; the spawn callback has no such guard.)
\<close>

theorem startJob_spawn_rejected_fails_job:
  "validArticle (exStart (Some [''csdn'', ''cnblogs'']))
   \<and> channelsToRun (exStart (Some [''csdn'', ''cnblogs''])) = [''csdn'', ''cnblogs'']
   \<and> exSpawnFail 0 = CreateFailed ''boom'' \<and> exSpawnFail 1 = Created (Some 8)
   \<and> fst (handleV2StartJob 1000 ''J'' exSpawnFail exSettle (exStart (Some [''csdn'', ''cnblogs'']))
            (Some 5) emptyWorld) = Failure ''boom''
   \<and> getJobData (store (snd (handleV2StartJob 1000 ''J'' exSpawnFail exSettle
            (exStart (Some [''csdn'', ''cnblogs''])) (Some 5) emptyWorld))) ''J''
       = Some (exJob ''J'' 1000)
   \<and> channelStatus (jobStateCache (snd (handleV2StartJob 1000 ''J'' exSpawnFail exSettle
            (exStart (Some [''csdn'', ''cnblogs''])) (Some 5) emptyWorld)) ''J'') ''csdn''
       = Some not_started
   \<and> channelStatus (jobStateCache (snd (handleV2StartJob 1000 ''J'' exSpawnFail exSettle
            (exStart (Some [''csdn'', ''cnblogs''])) (Some 5) emptyWorld)) ''J'') ''cnblogs''
       = Some running
   \<and> channelStatus (getJobState (store (snd (handleV2StartJob 1000 ''J'' exSpawnFail exSettle
            (exStart (Some [''csdn'', ''cnblogs''])) (Some 5) emptyWorld))) ''J'') ''cnblogs''
       = Some not_started
   \<and> sent (snd (handleV2StartJob 1000 ''J'' exSpawnFail exSettle
            (exStart (Some [''csdn'', ''cnblogs''])) (Some 5) emptyWorld))
       = [TabCreate ''https://mp.csdn.net/mp_blog/creation/editor'' True,
          TabCreate ''https://i.cnblogs.com/posts/edit'' False]"
  by code_simp


lemma stopSignals_no_state [simp]: "stopSignals jid None cs = []"
  by (induction cs) simp_all





section \<open>Storing a job: keeping it, and the capacity cap\<close>

lemma storedJobs_keys:
  "map fst (storedJobs st) = filter (\<lambda>k. startsWith k JOB_KEY_PREFIX) (map fst st)"
  by (simp add: storedJobs_def filter_map comp_def)

lemma length_storedJobs_obj_set:
  "map_of st k = Some old \<Longrightarrow> length (storedJobs (obj_set k v st)) = length (storedJobs st)"
  using storedJobs_keys[of "obj_set k v st"] storedJobs_keys[of st] obj_set_keys[of st k old v]
  by (metis length_map)

lemma obj_set_new: "map_of st k = None \<Longrightarrow> obj_set k v st = st @ [(k, v)]"
  by (induction st) (auto split: if_splits)

lemma storedJobs_storage_remove:
  "storedJobs (storage_remove ks st) = filter (\<lambda>e. fst e \<notin> set ks) (storedJobs st)"
  by (simp add: storedJobs_def storage_remove_def conj_commute)

lemma length_storedJobs_remove:
  "length (storedJobs (storage_remove ks st)) \<le> length (storedJobs st)"
  by (simp add: storedJobs_storage_remove)

lemma limitStoredJobs_within:
  "length (storedJobs st) \<le> MAX_STORED_JOBS \<Longrightarrow> limitStoredJobs st = st"
  by (simp add: limitStoredJobs_def sortedJobs_def)

lemma distinct_sweep:
  "distinct (map fst st) \<Longrightarrow> distinct (map fst (snd (cleanExpiredData now st)))"
  by (simp add: store_after_sweep distinct_storage_remove)

lemma storeJobData_keeps:
  assumes d: "distinct (map fst st)"
    and old: "getJobData st (jobId job) = Some old"
    and ne: "\<not> jobExpired now job"
    and cap: "length (storedJobs st) \<le> MAX_STORED_JOBS"
  shows "getJobData (storeJobData now job st) (jobId job) = Some job"
proof -
  let ?k = "jobKey (jobId job)"
  let ?st0 = "obj_set ?k (JobV job) st"
  let ?st1 = "snd (cleanExpiredData now ?st0)"
  from old obtain v where v: "map_of st ?k = Some v"
    by (auto simp: getJobData_def split: option.splits)
  have d0: "distinct (map fst ?st0)" using d by (rule distinct_obj_set)
  have g0: "getJobData ?st0 (jobId job) = Some job"
    by (simp add: getJobData_def map_of_obj_set)
  have g1: "getJobData ?st1 (jobId job) = Some job"
    using ne by (simp add: getJobData_sweep[OF d0] g0)
  have "length (storedJobs ?st1) \<le> length (storedJobs ?st0)"
    by (simp add: store_after_sweep length_storedJobs_remove)
  also have "\<dots> = length (storedJobs st)"
    using v by (rule length_storedJobs_obj_set)
  finally have "limitStoredJobs ?st1 = ?st1"
    using cap by (intro limitStoredJobs_within) simp
  then show ?thesis using g1 by (simp add: storeJobData_def)
qed

text \<open>
  Claim C5, as amended. RequestStop is idempotent on a job that is within its TTL when it
  is first stopped: for a store with unique keys holding at most 20 jobs, an existing job
  that is not stopped and not expired at the (non-zero) time of the first call, two
  calls both answer success; the first writes \<open>stoppedAt\<close>, and the second returns at
  once and leaves the whole state as the first call left it, so no stop signal is
  sent again.
\<close>

theorem stopJob_idempotent:
  assumes "jid \<noteq> []" and "distinct (map fst (store w))"
    and "getJobData (store w) jid = Some job" and "jobId job = jid"
    and "\<not> truthy (stoppedAt job)" and "now1 \<noteq> 0" and "\<not> jobExpired now1 job"
    and "length (storedJobs (store w)) \<le> MAX_STORED_JOBS"
  shows "fst (handleV2StopJob now1 jid w) = Success
         \<and> getJobData (store (snd (handleV2StopJob now1 jid w))) jid
             = Some (job\<lparr>stoppedAt := Some now1\<rparr>)
         \<and> handleV2StopJob now2 jid (snd (handleV2StopJob now1 jid w))
             = (Success, snd (handleV2StopJob now1 jid w))"
proof -
  let ?job' = "job\<lparr>stoppedAt := Some now1\<rparr>"
  let ?st' = "storeJobData now1 ?job' (store w)"
  have m: "markJobStopped now1 jid now1 (store w) = Inr ?st'"
    using assms(3) by (simp add: markJobStopped_def)
  have id: "jobId ?job' = jid" using assms(4) by simp
  have ne: "\<not> jobExpired now1 ?job'" using assms(7) by (simp add: jobExpired_def)
  have g: "getJobData ?st' jid = Some ?job'"
    using storeJobData_keeps[OF assms(2) _ ne assms(8), of job] assms(3) id by simp
  have s: "store (snd (handleV2StopJob now1 jid w)) = ?st'"
    using assms(1,3,5) by (simp add: handleV2StopJob_def m Let_def)
  have r: "fst (handleV2StopJob now1 jid w) = Success"
    using assms(1,3,5) by (simp add: handleV2StopJob_def m Let_def)
  have again: "handleV2StopJob now2 jid w' = (Success, w')"
    if "getJobData (store w') jid = Some ?job'" for w'
    using that assms(1,6) by (simp add: handleV2StopJob_def)
  show ?thesis
    using r g s again[of "snd (handleV2StopJob now1 jid w)"] by simp
qed

theorem stopJob_idempotent_witness:
  "''J'' \<noteq> [] \<and> distinct (map fst (store (exWorld (exJob ''J'' 1000))))
   \<and> getJobData (store (exWorld (exJob ''J'' 1000))) ''J'' = Some (exJob ''J'' 1000)
   \<and> jobId (exJob ''J'' 1000) = ''J'' \<and> \<not> truthy (stoppedAt (exJob ''J'' 1000))
   \<and> (2000::int) \<noteq> 0 \<and> \<not> jobExpired 2000 (exJob ''J'' 1000)
   \<and> length (storedJobs (store (exWorld (exJob ''J'' 1000)))) \<le> MAX_STORED_JOBS
   \<and> fst (handleV2StopJob 2000 ''J'' (exWorld (exJob ''J'' 1000))) = Success
   \<and> getJobData (store (snd (handleV2StopJob 2000 ''J'' (exWorld (exJob ''J'' 1000))))) ''J''
       = Some ((exJob ''J'' 1000)\<lparr>stoppedAt := Some 2000\<rparr>)
   \<and> handleV2StopJob 3000 ''J'' (snd (handleV2StopJob 2000 ''J'' (exWorld (exJob ''J'' 1000))))
       = (Success, snd (handleV2StopJob 2000 ''J'' (exWorld (exJob ''J'' 1000))))"
proof -
  let ?w = "exWorld (exJob ''J'' 1000)"
  have a1: "''J'' \<noteq> []" by simp
  have a2: "distinct (map fst (store ?w))"
    by (simp add: exWorld_def exJob_def jobKey_def stateKey_def JOB_KEY_PREFIX_def
        STATE_KEY_PREFIX_def)
  have a3: "getJobData (store ?w) ''J'' = Some (exJob ''J'' 1000)"
    by (simp add: exWorld_def exJob_def getJobData_def)
  have a4: "jobId (exJob ''J'' 1000) = ''J''" by (simp add: exJob_def)
  have a5: "\<not> truthy (stoppedAt (exJob ''J'' 1000))" by (simp add: exJob_def)
  have a6: "(2000::int) \<noteq> 0" by simp
  have a7: "\<not> jobExpired 2000 (exJob ''J'' 1000)"
    by (simp add: jobExpired_def exJob_def EXPIRY_TIME_def)
  have a8: "length (storedJobs (store ?w)) \<le> MAX_STORED_JOBS"
    by (simp add: storedJobs_def exWorld_def exJob_def MAX_STORED_JOBS_def)
  show ?thesis
    using a1 a2 a3 a4 a5 a6 a7 a8 stopJob_idempotent[OF a1 a2 a3 a4 a5 a6 a7 a8, of 3000]
    by simp
qed

text \<open>
  The claim as written fails for a job older than 24 hours that no sweep has removed
  yet: the first stop rewrites the job through \<open>storeJobData\<close>, whose sweep deletes it, and
  the second call answers \<^verbatim>\<open>Job not found\<close>.
\<close>

theorem stopJob_expired_counterexample:
  "getJobData (store (exWorld (exJob ''J'' 1))) ''J'' = Some (exJob ''J'' 1)
   \<and> fst (handleV2StopJob (1 + EXPIRY_TIME + 1) ''J'' (exWorld (exJob ''J'' 1))) = Success
   \<and> fst (handleV2StopJob (1 + EXPIRY_TIME + 1) ''J''
            (snd (handleV2StopJob (1 + EXPIRY_TIME + 1) ''J'' (exWorld (exJob ''J'' 1)))))
       = Failure ''Job not found''"
  by (simp add: handleV2StopJob_def exWorld_def exJob_def getJobData_def jobKey_def
      JOB_KEY_PREFIX_def markJobStopped_def storeJobData_def cleanExpiredData_def
      limitStoredJobs_def sortedJobs_def storedJobs_def isExpired_def startsWith_def
      EXPIRY_TIME_def MAX_STORED_JOBS_def storage_remove_def stateKey_def STATE_KEY_PREFIX_def
      Let_def)

lemma set_keysToRemove:
  "set (keysToRemove rs) =
     fst ` set rs \<union> (\<lambda>e. stateKey (drop (length JOB_KEY_PREFIX) (fst e))) ` set rs"
  by (induction rs) auto

lemma storedJobs_subset: "set (storedJobs st) \<subseteq> set st"
  by (auto simp: storedJobs_def)

lemma storedJobs_prefix: "e \<in> set (storedJobs st) \<Longrightarrow> startsWith (fst e) JOB_KEY_PREFIX"
  by (simp add: storedJobs_def)

lemma distinct_storedJobs:
  "distinct (map fst st) \<Longrightarrow> distinct (map fst (storedJobs st))"
  by (simp add: storedJobs_def distinct_map_filter)

lemma set_sortedJobs [simp]: "set (sortedJobs st) = set (storedJobs st)"
  by (simp add: sortedJobs_def)

lemma length_sortedJobs [simp]: "length (sortedJobs st) = length (storedJobs st)"
  by (simp add: sortedJobs_def)

lemma sortedJobs_order:
  assumes "k \<in> set (take n (sortedJobs st))" and "r \<in> set (drop n (sortedJobs st))"
  shows "createdAt_of (snd r) \<le> createdAt_of (snd k)"
proof -
  let ?f = "\<lambda>e. - createdAt_of (snd e)"
  have "sorted (map ?f (sortedJobs st))"
    by (simp add: sortedJobs_def)
  then have "sorted (map ?f (take n (sortedJobs st)) @ map ?f (drop n (sortedJobs st)))"
    by (metis append_take_drop_id map_append)
  then have "\<forall>x \<in> set (map ?f (take n (sortedJobs st))).
               \<forall>y \<in> set (map ?f (drop n (sortedJobs st))). x \<le> y"
    by (simp add: sorted_append)
  with assms have "?f k \<le> ?f r" by auto
  then show ?thesis by simp
qed

lemma same_key_same_entry:
  "distinct (map fst st) \<Longrightarrow> a \<in> set st \<Longrightarrow> b \<in> set st \<Longrightarrow> fst a = fst b \<Longrightarrow> a = b"
  by (meson distinct_map inj_onD)

lemma limit_removed_iff:
  assumes d: "distinct (map fst st)" and e: "e \<in> set (storedJobs st)"
    and R: "set R \<subseteq> set (storedJobs st)"
  shows "fst e \<in> set (keysToRemove R) \<longleftrightarrow> e \<in> set R"
proof
  assume "fst e \<in> set (keysToRemove R)"
  then consider (job) r where "r \<in> set R" "fst e = fst r"
    | (state) r where "r \<in> set R" "fst e = stateKey (drop (length JOB_KEY_PREFIX) (fst r))"
    unfolding set_keysToRemove by auto
  then show "e \<in> set R"
  proof cases
    case job
    then have "r \<in> set st" "e \<in> set st"
      using R e storedJobs_subset by blast+
    with d job show ?thesis using same_key_same_entry by metis
  next
    case state
    then show ?thesis using storedJobs_prefix[OF e] stateKey_not_job by metis
  qed
next
  assume "e \<in> set R"
  then show "fst e \<in> set (keysToRemove R)"
    unfolding set_keysToRemove by simp
qed

lemma limit_over:
  "length (storedJobs st) > MAX_STORED_JOBS \<Longrightarrow>
     limitStoredJobs st = storage_remove (keysToRemove (drop MAX_STORED_JOBS (sortedJobs st))) st"
  by (simp add: limitStoredJobs_def Let_def)

lemma limit_storedJobs:
  assumes d: "distinct (map fst st)" and big: "length (storedJobs st) > MAX_STORED_JOBS"
  shows "storedJobs (limitStoredJobs st) =
           filter (\<lambda>e. e \<notin> set (drop MAX_STORED_JOBS (sortedJobs st))) (storedJobs st)"
proof -
  let ?R = "drop MAX_STORED_JOBS (sortedJobs st)"
  have R: "set ?R \<subseteq> set (storedJobs st)"
    using set_drop_subset[of MAX_STORED_JOBS "sortedJobs st"] by simp
  have "storedJobs (limitStoredJobs st) =
          filter (\<lambda>e. fst e \<notin> set (keysToRemove ?R)) (storedJobs st)"
    by (simp add: limit_over[OF big] storedJobs_storage_remove)
  also have "\<dots> = filter (\<lambda>e. e \<notin> set ?R) (storedJobs st)"
    by (rule filter_cong[OF refl]) (simp add: limit_removed_iff[OF d _ R])
  finally show ?thesis .
qed

lemma limit_set:
  assumes d: "distinct (map fst st)" and big: "length (storedJobs st) > MAX_STORED_JOBS"
  shows "set (storedJobs (limitStoredJobs st)) = set (take MAX_STORED_JOBS (sortedJobs st))"
    and "set (storedJobs st) - set (storedJobs (limitStoredJobs st))
           = set (drop MAX_STORED_JOBS (sortedJobs st))"
    and "length (storedJobs (limitStoredJobs st)) = MAX_STORED_JOBS"
proof -
  let ?S = "sortedJobs st"
  let ?K = "take MAX_STORED_JOBS ?S" and ?R = "drop MAX_STORED_JOBS ?S"
  have dj: "distinct (storedJobs st)"
    using distinct_storedJobs[OF d] by (simp add: distinct_map)
  then have dS: "distinct ?S" by (simp add: sortedJobs_def)
  then have "distinct (?K @ ?R)" by simp
  then have disj: "set ?K \<inter> set ?R = {}" and dK: "distinct ?K"
    by (simp_all only: distinct_append) 
  have un: "set ?K \<union> set ?R = set (storedJobs st)"
    by (metis append_take_drop_id set_append set_sortedJobs)
  have eq: "storedJobs (limitStoredJobs st) = filter (\<lambda>e. e \<notin> set ?R) (storedJobs st)"
    by (rule limit_storedJobs[OF d big])
  show k: "set (storedJobs (limitStoredJobs st)) = set ?K"
    unfolding eq using disj un by auto
  show "set (storedJobs st) - set (storedJobs (limitStoredJobs st)) = set ?R"
    unfolding k using disj un by auto
  have "distinct (storedJobs (limitStoredJobs st))"
    unfolding eq using dj by simp
  then have "length (storedJobs (limitStoredJobs st)) = card (set ?K)"
    using k by (metis distinct_card)
  also have "\<dots> = length ?K" using dK by (rule distinct_card)
  also have "\<dots> = MAX_STORED_JOBS" using big by simp
  finally show "length (storedJobs (limitStoredJobs st)) = MAX_STORED_JOBS" .
qed

lemma limit_gone:
  assumes big: "length (storedJobs st) > MAX_STORED_JOBS"
    and r: "r \<in> set (drop MAX_STORED_JOBS (sortedJobs st))"
  shows "map_of (limitStoredJobs st) (fst r) = None"
    and "map_of (limitStoredJobs st) (stateKey (drop (length JOB_KEY_PREFIX) (fst r))) = None"
  using r by (simp_all add: limit_over[OF big] map_of_storage_remove set_keysToRemove)

lemma limit_cap: "distinct (map fst st) \<Longrightarrow> length (storedJobs (limitStoredJobs st)) \<le> MAX_STORED_JOBS"
  by (cases "length (storedJobs st) > MAX_STORED_JOBS")
     (simp_all add: limit_set(3) limitStoredJobs_within)

text \<open>The handlers keep the storage keys unique.\<close>

lemma distinct_limitStoredJobs:
  "distinct (map fst st) \<Longrightarrow> distinct (map fst (limitStoredJobs st))"
  by (simp add: limitStoredJobs_def Let_def distinct_storage_remove)

lemma distinct_storeJobData:
  "distinct (map fst st) \<Longrightarrow> distinct (map fst (storeJobData now job st))"
  unfolding storeJobData_def
  by (intro distinct_limitStoredJobs distinct_sweep distinct_obj_set)

lemma distinct_storeJobState:
  "distinct (map fst st) \<Longrightarrow> distinct (map fst (storeJobState jid state st))"
  unfolding storeJobState_def by (rule distinct_obj_set)

lemma expiredKeys_none: "list_all (\<lambda>e. \<not> isExpired now e) st \<Longrightarrow> expiredKeys now st = []"
  by (induction st) auto

lemma storedJobs_append: "storedJobs (xs @ ys) = storedJobs xs @ storedJobs ys"
  by (simp add: storedJobs_def)

lemma getJobData_gone:
  "startsWith k JOB_KEY_PREFIX \<Longrightarrow> map_of st k = None \<Longrightarrow>
     getJobData st (drop (length JOB_KEY_PREFIX) k) = None"
  by (simp add: getJobData_def startsWith_slice)

lemma getJobState_gone:
  "map_of st (stateKey jid) = None \<Longrightarrow> getJobState st jid = None"
  by (simp add: getJobState_def)

text \<open>
  Claim C7, as amended. Storing a job writes it, sweeps the jobs past their TTL and then
  enforces the cap, so that at most 20 jobs are stored afterwards. Whenever more than 20
  jobs are left after the sweep, exactly 20 remain: the evicted jobs have a \<open>createdAt\<close>
  no greater than that of any job kept, and their job record and state record are both
  gone. In particular, with 20 stored jobs none of which is past its TTL, storing a 21st
  job (new id, not expired) evicts exactly one job, one whose \<open>createdAt\<close> is smallest
  among the 21, and leaves 20. Jobs past their TTL are removed by the sweep of the same
  call, whatever the cap.
\<close>

theorem storeJobData_capacity:
  assumes "distinct (map fst st)"
  shows "length (storedJobs (storeJobData now job st)) \<le> MAX_STORED_JOBS
    \<and> (length (storedJobs (snd (cleanExpiredData now (obj_set (jobKey (jobId job)) (JobV job) st))))
          > MAX_STORED_JOBS \<longrightarrow>
         length (storedJobs (storeJobData now job st)) = MAX_STORED_JOBS
         \<and> set (storedJobs (storeJobData now job st))
             \<subseteq> set (storedJobs (snd (cleanExpiredData now
                     (obj_set (jobKey (jobId job)) (JobV job) st))))
         \<and> (\<forall>r \<in> set (storedJobs (snd (cleanExpiredData now
                     (obj_set (jobKey (jobId job)) (JobV job) st))))
                   - set (storedJobs (storeJobData now job st)).
               (\<forall>k \<in> set (storedJobs (storeJobData now job st)).
                   createdAt_of (snd r) \<le> createdAt_of (snd k))
               \<and> getJobData (storeJobData now job st) (drop (length JOB_KEY_PREFIX) (fst r)) = None
               \<and> getJobState (storeJobData now job st) (drop (length JOB_KEY_PREFIX) (fst r)) = None))
    \<and> (length (storedJobs st) = MAX_STORED_JOBS \<and> map_of st (jobKey (jobId job)) = None
          \<and> list_all (\<lambda>e. \<not> isExpired now e) st \<and> \<not> jobExpired now job \<longrightarrow>
         (\<exists>r. r \<in> set (storedJobs st) \<union> {(jobKey (jobId job), JobV job)}
             \<and> set (storedJobs (storeJobData now job st))
                 = (set (storedJobs st) \<union> {(jobKey (jobId job), JobV job)}) - {r}
             \<and> length (storedJobs (storeJobData now job st)) = MAX_STORED_JOBS
             \<and> (\<forall>k \<in> set (storedJobs st) \<union> {(jobKey (jobId job), JobV job)}.
                   createdAt_of (snd r) \<le> createdAt_of (snd k))
             \<and> getJobData (storeJobData now job st) (drop (length JOB_KEY_PREFIX) (fst r)) = None
             \<and> getJobState (storeJobData now job st) (drop (length JOB_KEY_PREFIX) (fst r)) = None))"
proof -
  define st1 where "st1 = snd (cleanExpiredData now (obj_set (jobKey (jobId job)) (JobV job) st))"
  define st2 where "st2 = storeJobData now job st"
  define new where "new = (jobKey (jobId job), JobV job)"
  let ?n = "length JOB_KEY_PREFIX"
  have st2: "st2 = limitStoredJobs st1"
    by (simp add: st2_def st1_def storeJobData_def)
  have d1: "distinct (map fst st1)"
    unfolding st1_def using assms by (intro distinct_sweep distinct_obj_set)
  have cap: "length (storedJobs st2) \<le> MAX_STORED_JOBS"
    unfolding st2 by (rule limit_cap[OF d1])
  have over: "length (storedJobs st2) = MAX_STORED_JOBS
         \<and> set (storedJobs st2) \<subseteq> set (storedJobs st1)
         \<and> (\<forall>r \<in> set (storedJobs st1) - set (storedJobs st2).
               (\<forall>k \<in> set (storedJobs st2). createdAt_of (snd r) \<le> createdAt_of (snd k))
               \<and> getJobData st2 (drop ?n (fst r)) = None
               \<and> getJobState st2 (drop ?n (fst r)) = None)"
    if big: "length (storedJobs st1) > MAX_STORED_JOBS"
  proof (intro conjI ballI)
    show "length (storedJobs st2) = MAX_STORED_JOBS"
      unfolding st2 by (rule limit_set(3)[OF d1 big])
    show "set (storedJobs st2) \<subseteq> set (storedJobs st1)"
      unfolding st2 limit_storedJobs[OF d1 big] by auto
  next
    fix r assume "r \<in> set (storedJobs st1) - set (storedJobs st2)"
    then have r: "r \<in> set (drop MAX_STORED_JOBS (sortedJobs st1))"
      unfolding st2 limit_set(2)[OF d1 big] .
    then have "r \<in> set (storedJobs st1)"
      using set_drop_subset[of MAX_STORED_JOBS "sortedJobs st1"] by auto
    then have p: "startsWith (fst r) JOB_KEY_PREFIX" by (rule storedJobs_prefix)
    show "getJobData st2 (drop ?n (fst r)) = None"
      unfolding st2 using p limit_gone(1)[OF big r] by (rule getJobData_gone)
    show "getJobState st2 (drop ?n (fst r)) = None"
      unfolding st2 using limit_gone(2)[OF big r] by (rule getJobState_gone)
    fix k assume "k \<in> set (storedJobs st2)"
    then have "k \<in> set (take MAX_STORED_JOBS (sortedJobs st1))"
      unfolding st2 limit_set(1)[OF d1 big] .
    then show "createdAt_of (snd r) \<le> createdAt_of (snd k)"
      using r by (rule sortedJobs_order)
  qed
  have one: "\<exists>r. r \<in> set (storedJobs st) \<union> {new}
             \<and> set (storedJobs st2) = (set (storedJobs st) \<union> {new}) - {r}
             \<and> length (storedJobs st2) = MAX_STORED_JOBS
             \<and> (\<forall>k \<in> set (storedJobs st) \<union> {new}. createdAt_of (snd r) \<le> createdAt_of (snd k))
             \<and> getJobData st2 (drop ?n (fst r)) = None
             \<and> getJobState st2 (drop ?n (fst r)) = None"
    if h: "length (storedJobs st) = MAX_STORED_JOBS \<and> map_of st (jobKey (jobId job)) = None
          \<and> list_all (\<lambda>e. \<not> isExpired now e) st \<and> \<not> jobExpired now job"
  proof -
    have st0: "obj_set (jobKey (jobId job)) (JobV job) st = st @ [new]"
      using h by (simp add: obj_set_new new_def)
    have "\<not> isExpired now new"
      using h by (simp add: new_def isExpired_job)
    then have "list_all (\<lambda>e. \<not> isExpired now e) (st @ [new])"
      using h by simp
    then have "expiredKeys now (st @ [new]) = []"
      by (rule expiredKeys_none)
    then have s1: "st1 = st @ [new]"
      by (simp add: st1_def st0 store_after_sweep storage_remove_def)
    have j1: "storedJobs st1 = storedJobs st @ [new]"
      by (simp add: s1 storedJobs_append, simp add: storedJobs_def new_def)
    have set1: "set (storedJobs st1) = set (storedJobs st) \<union> {new}"
      by (simp add: j1)
    have big: "length (storedJobs st1) > MAX_STORED_JOBS"
      using h by (simp add: j1)
    have "length (drop MAX_STORED_JOBS (sortedJobs st1)) = 1"
      using h by (simp add: j1)
    then obtain r where R: "drop MAX_STORED_JOBS (sortedJobs st1) = [r]"
      by (cases "drop MAX_STORED_JOBS (sortedJobs st1)") auto
    have diff: "set (storedJobs st1) - set (storedJobs st2) = {r}"
      unfolding st2 limit_set(2)[OF d1 big] R by simp
    have sub: "set (storedJobs st2) \<subseteq> set (storedJobs st1)"
      using over[OF big] by simp
    have rin: "r \<in> set (storedJobs st1)" using diff by blast
    have keep: "set (storedJobs st2) = set (storedJobs st1) - {r}"
      using diff sub by blast
    have least: "createdAt_of (snd r) \<le> createdAt_of (snd k)" if "k \<in> set (storedJobs st1)" for k
    proof (cases "k = r")
      case True
      then show ?thesis by simp
    next
      case False
      with that keep have "k \<in> set (storedJobs st2)" by simp
      moreover have "r \<in> set (storedJobs st1) - set (storedJobs st2)" using diff by simp
      ultimately show ?thesis using over[OF big] by blast
    qed
    have gone: "getJobData st2 (drop ?n (fst r)) = None \<and> getJobState st2 (drop ?n (fst r)) = None"
      using over[OF big] diff by blast
    show ?thesis
      using rin keep least gone over[OF big] unfolding set1
      by (intro exI[of _ r]) simp
  qed
  show ?thesis
    using cap over one unfolding st1_def st2_def new_def by blast
qed

theorem storeJobData_capacity_witness:
  "distinct (map fst exStoreFresh)
   \<and> length (storedJobs exStoreFresh) = MAX_STORED_JOBS
   \<and> map_of exStoreFresh (jobKey (jobId (exJob ''u'' 90000100))) = None
   \<and> list_all (\<lambda>e. \<not> isExpired 90000100 e) exStoreFresh
   \<and> \<not> jobExpired 90000100 (exJob ''u'' 90000100)
   \<and> length (storedJobs (snd (cleanExpiredData 90000100
         (obj_set (jobKey (jobId (exJob ''u'' 90000100))) (JobV (exJob ''u'' 90000100))
            exStoreFresh)))) > MAX_STORED_JOBS
   \<and> length (storedJobs (storeJobData 90000100 (exJob ''u'' 90000100) exStoreFresh))
       = MAX_STORED_JOBS"
proof -
  let ?job = "exJob ''u'' 90000100"
  have d: "distinct (map fst exStoreFresh)" by code_simp
  have h1: "length (storedJobs exStoreFresh) = MAX_STORED_JOBS" by code_simp
  have h2: "map_of exStoreFresh (jobKey (jobId ?job)) = None" by code_simp
  have h3: "list_all (\<lambda>e. \<not> isExpired 90000100 e) exStoreFresh" by code_simp
  have h4: "\<not> jobExpired 90000100 ?job" by code_simp
  have h5: "length (storedJobs (snd (cleanExpiredData 90000100
         (obj_set (jobKey (jobId ?job)) (JobV ?job) exStoreFresh)))) > MAX_STORED_JOBS"
    by code_simp
  note th = storeJobData_capacity[OF d, of 90000100 ?job]
  from th[THEN conjunct2, THEN conjunct2] h1 h2 h3 h4
  have "length (storedJobs (storeJobData 90000100 ?job exStoreFresh)) = MAX_STORED_JOBS"
    by blast
  with d h1 h2 h3 h4 h5 show ?thesis by blast
qed

text \<open>
  The claim as written fails when stored jobs are past their TTL: with 20 stored jobs,
  two of them older than 24 hours, creating a 21st leaves 19, not 20.
\<close>

theorem storeJobData_stale_counterexample:
  "length (storedJobs exStoreStale) = 20
   \<and> getJobData exStoreStale ''u'' = None
   \<and> length (storedJobs (storeJobData 90000100 (exJob ''u'' 90000100) exStoreStale)) = 19"
  by code_simp

end
